theory Spec2Isabelle
  imports Main "HOL-Library.Multiset"
begin

section \<open>Python values used by the tracker\<close>

text \<open>
  A Python \<open>str\<close> is a sequence of Unicode code points. The em dash that the market page
  shows for missing data is the single code point U+2014, so strings are lists of code
  points rather than lists of bytes.
\<close>

type_synonym codepoint = nat
type_synonym pystr = "codepoint list"

definition ascii :: "string \<Rightarrow> pystr" where
  "ascii s = map of_char s"

definition EM_DASH :: codepoint where
  "EM_DASH = 8212"

text \<open>
  The exceptions that occur in the program. \<open>KeyboardInterrupt\<close> derives from
  \<open>BaseException\<close> only; every other one derives from \<open>Exception\<close>;
  \<open>TimeoutException\<close> and \<open>StaleElementReferenceException\<close> derive from
  \<open>WebDriverException\<close>.
\<close>

datatype exn =
    ValueError
  | IndexError
  | OSError
  | TimeoutException
  | StaleElementReferenceException
  | WebDriverException
  | KeyboardInterrupt

fun is_Exception :: "exn \<Rightarrow> bool" where
  "is_Exception KeyboardInterrupt = False"
| "is_Exception _ = True"

fun is_WebDriverException :: "exn \<Rightarrow> bool" where
  "is_WebDriverException TimeoutException = True"
| "is_WebDriverException StaleElementReferenceException = True"
| "is_WebDriverException WebDriverException = True"
| "is_WebDriverException _ = False"

text \<open>
  The part of the Unicode character database that lies outside ASCII is a parameter:
  which code points from 128 on are white space (\<open>Py_UNICODE_ISSPACE\<close>) and which are
  decimal digits, with their value (\<open>Py_UNICODE_TODECIMAL\<close>).
\<close>

record unicode_db =
  uspace :: "codepoint \<Rightarrow> bool"
  udecimal :: "codepoint \<Rightarrow> nat option"

subsection \<open>String methods\<close>

definition isspace :: "unicode_db \<Rightarrow> codepoint \<Rightarrow> bool" where
  "isspace u c =
     (if c < 128 then (9 \<le> c \<and> c \<le> 13) \<or> (28 \<le> c \<and> c \<le> 32) else uspace u c)"

text \<open>\<open>str.strip()\<close> with no argument drops white space at both ends.\<close>

definition strip :: "unicode_db \<Rightarrow> pystr \<Rightarrow> pystr" where
  "strip u s = rev (dropWhile (isspace u) (rev (dropWhile (isspace u) s)))"

text \<open>
  \<open>str.replace(old, new)\<close>: every occurrence of \<open>old\<close>, found from the left without
  overlap, becomes \<open>new\<close>; an empty \<open>old\<close> matches before every character and at the end.
\<close>

function replace :: "pystr \<Rightarrow> pystr \<Rightarrow> pystr \<Rightarrow> pystr" where
  "replace old new [] = (if old = [] then new else [])"
| "replace old new (c # cs) =
     (if old = [] then new @ c # replace old new cs
      else if take (length old) (c # cs) = old
           then new @ replace old new (drop (length old) (c # cs))
           else c # replace old new cs)"
  by pat_completeness auto
termination
  by (relation "measure (\<lambda>(old, new, s). length s)") auto

definition endswith :: "pystr \<Rightarrow> pystr \<Rightarrow> bool" where
  "endswith s suf = (length suf \<le> length s \<and> drop (length s - length suf) s = suf)"

subsection \<open>Floats\<close>

text \<open>
  A Python \<open>float\<close> is an IEEE 754 binary64 number: a finite value \<open>m * 2 ^ e\<close> with
  \<open>|m| < 2 ^ 53\<close> and \<open>-1074 \<le> e\<close>, an infinity with its sign (\<open>True\<close> for the negative
  one), or a NaN. \<open>Finite m e\<close> is kept normalised (\<open>m\<close> odd, or \<open>m = 0\<close> and \<open>e = 0\<close>),
  so that equal values are equal terms. The two zeros compare equal in Python and are
  one value here.
\<close>

datatype pyfloat = Finite int int | Infinity bool | NaN

fun bit_length :: "nat \<Rightarrow> nat" where
  "bit_length n = (if n = 0 then 0 else Suc (bit_length (n div 2)))"

declare bit_length.simps [simp del]

function normalise :: "int \<Rightarrow> int \<Rightarrow> pyfloat" where
  "normalise m e =
     (if m = 0 then Finite 0 0
      else if even m then normalise (m div 2) (e + 1)
      else Finite m e)"
  by pat_completeness auto
termination
  by (relation "measure (\<lambda>(m, e). nat \<bar>m\<bar>)") auto

declare normalise.simps [simp del]

text \<open>\<open>round_div n d\<close> is the integer nearest to \<open>n / d\<close>, ties to even (\<open>0 \<le> n\<close>, \<open>0 < d\<close>).\<close>

definition round_div :: "int \<Rightarrow> int \<Rightarrow> int" where
  "round_div n d =
     (if 2 * (n mod d) < d then n div d
      else if d < 2 * (n mod d) then n div d + 1
      else if even (n div d) then n div d else n div d + 1)"

text \<open>
  \<open>binade a d\<close> is the exponent \<open>e\<close> with \<open>2 ^ e \<le> a / d < 2 ^ (e + 1)\<close> (\<open>0 < a\<close>,
  \<open>0 < d\<close>): the difference \<open>k\<close> of the bit lengths, or one less.
\<close>

definition binade_from :: "int \<Rightarrow> int \<Rightarrow> int \<Rightarrow> int" where
  "binade_from a d k =
     (if (if 0 \<le> k then d * 2 ^ nat k \<le> a else d \<le> a * 2 ^ nat (- k)) then k else k - 1)"

definition binade :: "int \<Rightarrow> int \<Rightarrow> int" where
  "binade a d = binade_from a d (int (bit_length (nat a)) - int (bit_length (nat d)))"

text \<open>\<open>a / d\<close> in units of \<open>2 ^ ex\<close>, rounded to an integer.\<close>

definition significand :: "int \<Rightarrow> int \<Rightarrow> int \<Rightarrow> int" where
  "significand a d ex =
     (if ex < 0 then round_div (a * 2 ^ nat (- ex)) d else round_div a (d * 2 ^ nat ex))"

text \<open>The float \<open>\<plusminus> m * 2 ^ ex\<close>; from \<open>2 ^ 1024\<close> on it is an infinity.\<close>

definition pack :: "bool \<Rightarrow> int \<Rightarrow> int \<Rightarrow> pyfloat" where
  "pack neg m ex =
     (if 1025 \<le> int (bit_length (nat m)) + ex then Infinity neg
      else normalise (if neg then - m else m) ex)"

definition round_at :: "bool \<Rightarrow> int \<Rightarrow> int \<Rightarrow> int \<Rightarrow> pyfloat" where
  "round_at neg a d ex = pack neg (significand a d ex) ex"

text \<open>
  \<open>nearest_double n d\<close> is the binary64 value nearest to the rational \<open>n / d\<close> (\<open>0 < d\<close>),
  ties to even: the significand has 53 bits, so the last place has the exponent of the
  binade less 52, but not less than \<open>-1074\<close> (below that the value is subnormal).
\<close>

definition nearest_double :: "int \<Rightarrow> int \<Rightarrow> pyfloat" where
  "nearest_double n d =
     (if n = 0 then Finite 0 0
      else round_at (n < 0) \<bar>n\<bar> d (max (binade \<bar>n\<bar> d - 52) (- 1074)))"

text \<open>The value \<open>m * 2 ^ e\<close>, rounded.\<close>

definition round_dyadic :: "int \<Rightarrow> int \<Rightarrow> pyfloat" where
  "round_dyadic m e =
     (if 0 \<le> e then nearest_double (m * 2 ^ nat e) 1 else nearest_double m (2 ^ nat (- e)))"

text \<open>Multiplication of floats; the product of two finite values is rounded.\<close>

fun fmul :: "pyfloat \<Rightarrow> pyfloat \<Rightarrow> pyfloat" where
  "fmul (Finite m e) (Finite n f) = round_dyadic (m * n) (e + f)"
| "fmul (Finite m e) (Infinity s) = (if m = 0 then NaN else Infinity (s \<noteq> (m < 0)))"
| "fmul (Infinity s) (Finite n f) = (if n = 0 then NaN else Infinity (s \<noteq> (n < 0)))"
| "fmul (Infinity s) (Infinity t) = Infinity (s \<noteq> t)"
| "fmul NaN _ = NaN"
| "fmul _ NaN = NaN"

text \<open>
  \<open>x * k\<close> for a float \<open>x\<close> and an int \<open>k\<close> converts \<open>k\<close> to the nearest float first
  (Python raises \<open>OverflowError\<close> only for \<open>|k| \<ge> 2 ^ 1024\<close>, far above every
  multiplier of the program).
\<close>

definition fmul_int :: "pyfloat \<Rightarrow> int \<Rightarrow> pyfloat" where
  "fmul_int x k = fmul x (nearest_double k 1)"

text \<open>Comparison of floats: every comparison with a NaN is false.\<close>

fun fle :: "pyfloat \<Rightarrow> pyfloat \<Rightarrow> bool" where
  "fle (Finite m e) (Finite n f) =
     (m * 2 ^ nat (e - min e f) \<le> n * 2 ^ nat (f - min e f))"
| "fle (Finite m e) (Infinity s) = (\<not> s)"
| "fle (Infinity s) (Finite n f) = s"
| "fle (Infinity s) (Infinity t) = (s \<or> \<not> t)"
| "fle NaN _ = False"
| "fle _ NaN = False"

text \<open>Negation of a float.\<close>

fun fneg :: "pyfloat \<Rightarrow> pyfloat" where
  "fneg (Finite m e) = Finite (- m) e"
| "fneg (Infinity s) = Infinity (\<not> s)"
| "fneg NaN = NaN"

text \<open>The value of a finite float as a fraction, the denominator a power of two.\<close>

fun float_ratio :: "pyfloat \<Rightarrow> (int \<times> int) option" where
  "float_ratio (Finite m e) = Some (if 0 \<le> e then (m * 2 ^ nat e, 1) else (m, 2 ^ nat (- e)))"
| "float_ratio _ = None"

subsection \<open>The constructor \<open>float(str)\<close>\<close>

definition is_digit :: "codepoint \<Rightarrow> bool" where
  "is_digit c = (48 \<le> c \<and> c \<le> 57)"

text \<open>
  Step 1 of \<open>float(str)\<close>: code points below 127 stay, other white space becomes a blank,
  other decimal digits become ASCII digits, and the first code point that is neither
  becomes a question mark, which ends the text.
\<close>

definition todecimal :: "unicode_db \<Rightarrow> codepoint \<Rightarrow> nat option" where
  "todecimal u c =
     (if c < 128 then (if is_digit c then Some (c - 48) else None) else udecimal u c)"

fun to_ascii :: "unicode_db \<Rightarrow> pystr \<Rightarrow> pystr" where
  "to_ascii u [] = []"
| "to_ascii u (c # cs) =
     (if c < 127 then c # to_ascii u cs
      else if isspace u c then 32 # to_ascii u cs
      else (case todecimal u c of
              Some d \<Rightarrow> if d \<le> 9 then (48 + d) # to_ascii u cs else [63]
            | None \<Rightarrow> [63]))"

text \<open>
  Step 2: an underscore is allowed only between two digits. \<open>prev\<close> is the character
  before the text, 0 at the start.
\<close>

fun underscores_ok :: "codepoint \<Rightarrow> pystr \<Rightarrow> bool" where
  "underscores_ok prev [] = (prev \<noteq> 95)"
| "underscores_ok prev (c # cs) =
     ((if c = 95 then is_digit prev else if prev = 95 then is_digit c else True)
      \<and> underscores_ok c cs)"

text \<open>Step 3: white space of the C locale is dropped at both ends.\<close>

definition c_isspace :: "codepoint \<Rightarrow> bool" where
  "c_isspace c = ((9 \<le> c \<and> c \<le> 13) \<or> c = 32)"

definition c_strip :: "pystr \<Rightarrow> pystr" where
  "c_strip s = rev (dropWhile c_isspace (rev (dropWhile c_isspace s)))"

text \<open>
  Step 4: the whole text is an optional sign and then \<open>inf\<close>, \<open>infinity\<close> or \<open>nan\<close> in
  any case, or a decimal numeral with at least one digit, an optional point and an
  optional exponent.
\<close>

fun parse_sign :: "pystr \<Rightarrow> bool \<times> pystr" where
  "parse_sign [] = (False, [])"
| "parse_sign (c # cs) =
     (if c = 45 then (True, cs) else if c = 43 then (False, cs) else (False, c # cs))"

definition tolower :: "codepoint \<Rightarrow> codepoint" where
  "tolower c = (if 65 \<le> c \<and> c \<le> 90 then c + 32 else c)"

definition parse_inf_or_nan :: "pystr \<Rightarrow> pyfloat option" where
  "parse_inf_or_nan s =
     (let (neg, r) = parse_sign s; l = map tolower r
      in if l = ascii ''inf'' \<or> l = ascii ''infinity'' then Some (Infinity neg)
         else if l = ascii ''nan'' then Some NaN
         else None)"

fun digits_value :: "nat \<Rightarrow> pystr \<Rightarrow> nat" where
  "digits_value acc [] = acc"
| "digits_value acc (c # cs) = digits_value (10 * acc + (c - 48)) cs"

definition parse_exponent :: "pystr \<Rightarrow> int option" where
  "parse_exponent s =
     (case s of
        [] \<Rightarrow> Some 0
      | e # t \<Rightarrow>
          if e = 101 \<or> e = 69
          then (let (neg, ds) = parse_sign t
                in if ds \<noteq> [] \<and> list_all is_digit ds
                   then Some ((if neg then - 1 else 1) * int (digits_value 0 ds))
                   else None)
          else None)"

definition parse_decimal :: "pystr \<Rightarrow> pyfloat option" where
  "parse_decimal s =
     (let (neg, r) = parse_sign s;
          ip = takeWhile is_digit r;
          r1 = dropWhile is_digit r;
          fp = (case r1 of [] \<Rightarrow> [] | c # t \<Rightarrow> if c = 46 then takeWhile is_digit t else []);
          r2 = (case r1 of [] \<Rightarrow> [] | c # t \<Rightarrow> if c = 46 then dropWhile is_digit t else r1)
      in if ip = [] \<and> fp = [] then None
         else (case parse_exponent r2 of
                 None \<Rightarrow> None
               | Some e \<Rightarrow>
                   (let mant = (if neg then - 1 else 1) * int (digits_value 0 (ip @ fp));
                        ex10 = e - int (length fp)
                    in Some (if 0 \<le> ex10 then nearest_double (mant * 10 ^ nat ex10) 1
                             else nearest_double mant (10 ^ nat (- ex10))))))"

definition py_float :: "unicode_db \<Rightarrow> pystr \<Rightarrow> exn + pyfloat" where
  "py_float u s =
     (let a = to_ascii u s
      in if \<not> underscores_ok 0 a then Inl ValueError
         else (let t = c_strip (filter (\<lambda>c. c \<noteq> 95) a)
               in case parse_inf_or_nan t of
                    Some v \<Rightarrow> Inr v
                  | None \<Rightarrow> (case parse_decimal t of
                               Some v \<Rightarrow> Inr v
                             | None \<Rightarrow> Inl ValueError)))"

section \<open>Helpers: text to numbers\<close>

definition parse_money :: "unicode_db \<Rightarrow> pystr \<Rightarrow> exn + pyfloat option" where
  "parse_money u text =
     (if text = [] then Inr None
      else let text1 = strip u (replace [EM_DASH] []
                          (replace (ascii ''$'') [] (replace (ascii '','') [] text)));
               (multiplier, text2) =
                 (if endswith text1 (ascii ''K'') then (1000, butlast text1)
                  else if endswith text1 (ascii ''M'') then (1000000, butlast text1)
                  else if endswith text1 (ascii ''B'') then (1000000000, butlast text1)
                  else if endswith text1 (ascii ''T'') then (1000000000000, butlast text1)
                  else (1, text1))
           in case py_float u text2 of
                Inr x \<Rightarrow> Inr (Some (fmul_int x multiplier))
              | Inl e \<Rightarrow> if e = ValueError then Inr None else Inl e)"

definition parse_percent :: "unicode_db \<Rightarrow> pystr \<Rightarrow> exn + pyfloat option" where
  "parse_percent u text =
     (if text = [] then Inr None
      else let text1 = strip u (replace (ascii '','') []
                          (replace (ascii ''+'') [] (replace (ascii ''%'') [] text)))
           in case py_float u text1 of
                Inr x \<Rightarrow> Inr (Some x)
              | Inl e \<Rightarrow> if e = ValueError then Inr None else Inl e)"

text \<open>
  The specification's reading of the two parsers, for comparison with the code: a table
  of magnitude suffixes, of which at most one is taken off the end, and for percentages a
  sign that is dropped only where it leads the text and is a plus.
\<close>

definition suffix_factor :: "codepoint \<Rightarrow> int option" where
  "suffix_factor c =
     (if c = 75 then Some 1000
      else if c = 77 then Some 1000000
      else if c = 66 then Some 1000000000
      else if c = 84 then Some 1000000000000
      else None)"

definition scaled :: "exn + pyfloat \<Rightarrow> int \<Rightarrow> exn + pyfloat option" where
  "scaled r k = (case r of Inr x \<Rightarrow> Inr (Some (fmul_int x k)) | Inl e \<Rightarrow> Inr None)"

definition spec_money :: "unicode_db \<Rightarrow> pystr \<Rightarrow> exn + pyfloat option" where
  "spec_money u t =
     (case (if t = [] then None else suffix_factor (last t)) of
        Some k \<Rightarrow> scaled (py_float u (butlast t)) k
      | None \<Rightarrow> scaled (py_float u t) 1)"

definition spec_parse_percent :: "unicode_db \<Rightarrow> pystr \<Rightarrow> exn + pyfloat option" where
  "spec_parse_percent u text =
     (if text = [] then Inr None
      else (case py_float u (filter (\<lambda>c. c \<noteq> 37 \<and> c \<noteq> 44)
                               (case text of [] \<Rightarrow> [] | c # cs \<Rightarrow> if c = 43 then cs else text)) of
              Inr x \<Rightarrow> Inr (Some x)
            | Inl e \<Rightarrow> Inr None))"

text \<open>
  A character that cannot end a numeral: one of the four suffixes, or the question mark
  that stands for a character \<open>float\<close> does not know. A character that starts an unsigned
  numeral: a digit or the point. The result of a parser with the sign of its value
  changed.
\<close>

definition bad_last :: "codepoint \<Rightarrow> bool" where
  "bad_last c = (c = 75 \<or> c = 77 \<or> c = 66 \<or> c = 84 \<or> c = 63)"

definition numeral_start :: "codepoint \<Rightarrow> bool" where
  "numeral_start d = (is_digit d \<or> d = 46)"

definition negated :: "exn + pyfloat option \<Rightarrow> exn + pyfloat option" where
  "negated r = (case r of Inr (Some x) \<Rightarrow> Inr (Some (fneg x)) | _ \<Rightarrow> r)"

text \<open>A character database that knows no white space and no digits outside ASCII.\<close>

definition ascii_db :: unicode_db where
  "ascii_db = \<lparr>uspace = (\<lambda>c. False), udecimal = (\<lambda>c. None)\<rparr>"

section \<open>Records and data frames\<close>

text \<open>
  One scraped row, as the dictionary that \<open>scrape_top_n\<close> builds. A data frame made from
  such dictionaries has one row per record, in their order; a cell of a numeric column
  is null when it holds \<open>None\<close> or a NaN.
\<close>

record market_record =
  rank :: pystr
  name :: pystr
  symbol :: pystr
  price :: "pyfloat option"
  change_24h :: "pyfloat option"
  market_cap :: "pyfloat option"

type_synonym dataframe = "market_record list"

fun isna :: "pyfloat option \<Rightarrow> bool" where
  "isna None = True"
| "isna (Some NaN) = True"
| "isna (Some _) = False"

text \<open>The key of a row in a sort by \<open>change_24h\<close>; null cells never reach a comparison.\<close>

definition change_key :: "market_record \<Rightarrow> pyfloat" where
  "change_key r = (case change_24h r of Some x \<Rightarrow> x | None \<Rightarrow> NaN)"

text \<open>\<open>df.head(n)\<close>: the first \<open>n\<close> rows, or all but the last \<open>-n\<close> rows when \<open>n\<close> is negative.\<close>

definition head :: "dataframe \<Rightarrow> int \<Rightarrow> dataframe" where
  "head df n = (if 0 \<le> n then take (nat n) df else take (length df - nat (- n)) df)"

text \<open>
  \<open>df.sort_values(by="change_24h", ascending=asc)\<close> with the defaults \<open>kind="quicksort"\<close>
  and \<open>na_position="last"\<close>: the rows with a change come first, ordered by it, and the
  rows without one follow in their original order. The default sort is not a stable one,
  so the order of rows with equal changes is left to the library. The library's sort is
  therefore a parameter \<open>sv\<close> of the functions that call it, and \<open>sort_values_result\<close>
  says what every result of it satisfies.
\<close>

type_synonym sorter = "bool \<Rightarrow> dataframe \<Rightarrow> dataframe"

definition in_order :: "bool \<Rightarrow> market_record \<Rightarrow> market_record \<Rightarrow> bool" where
  "in_order asc a b =
     (if asc then fle (change_key a) (change_key b) else fle (change_key b) (change_key a))"

definition sort_values_result :: "bool \<Rightarrow> dataframe \<Rightarrow> dataframe \<Rightarrow> bool" where
  "sort_values_result asc df out =
     (let valued = filter (\<lambda>r. \<not> isna (change_24h r)) df
      in mset (take (length valued) out) = mset valued
         \<and> sorted_wrt (in_order asc) (take (length valued) out)
         \<and> drop (length valued) out = filter (\<lambda>r. isna (change_24h r)) df)"

definition pandas_sort :: "sorter \<Rightarrow> bool" where
  "pandas_sort sv = (\<forall>asc df. sort_values_result asc df (sv asc df))"

text \<open>One sort that meets the contract: insertion sort, which is stable.\<close>

fun insert_row :: "bool \<Rightarrow> market_record \<Rightarrow> dataframe \<Rightarrow> dataframe" where
  "insert_row asc r [] = [r]"
| "insert_row asc r (x # xs) =
     (if in_order asc r x then r # x # xs else x # insert_row asc r xs)"

definition stable_sort :: sorter where
  "stable_sort asc df =
     foldr (insert_row asc) (filter (\<lambda>r. \<not> isna (change_24h r)) df) []
       @ filter (\<lambda>r. isna (change_24h r)) df"

section \<open>Data utilities\<close>

subsection \<open>The CSV log\<close>

text \<open>
  The file system maps a path to the lines of the file there, or to nothing when no file
  exists. A line of the log is the header or one record with its time stamp.
\<close>

datatype csv_line = Header "string list" | DataRow market_record pystr

type_synonym filesystem = "pystr \<rightharpoonup> csv_line list"

definition csv_columns :: "string list" where
  "csv_columns =
     [''rank'', ''name'', ''symbol'', ''price'', ''change_24h'', ''market_cap'', ''timestamp_utc'']"

text \<open>
  \<open>now\<close> is the value of \<open>datetime.now(timezone.utc).isoformat()\<close>, read once in the call.
  \<open>os.path.exists\<close> is asked of the file system the call runs in.
\<close>

definition save_to_csv :: "market_record list \<Rightarrow> pystr \<Rightarrow> pystr \<Rightarrow> filesystem \<Rightarrow> filesystem" where
  "save_to_csv records output_file now fs =
     (if records = [] then fs
      else let df = map (\<lambda>r. DataRow r now) records;
               header = (fs output_file = None)
           in fs(output_file \<mapsto>
                (case fs output_file of None \<Rightarrow> [] | Some old \<Rightarrow> old)
                  @ (if header then [Header csv_columns] else []) @ df))"

subsection \<open>Filters\<close>

definition filter_top_gainers :: "sorter \<Rightarrow> dataframe \<Rightarrow> int \<Rightarrow> dataframe" where
  "filter_top_gainers sv df top_k = head (sv False df) top_k"

definition filter_top_losers :: "sorter \<Rightarrow> dataframe \<Rightarrow> int \<Rightarrow> dataframe" where
  "filter_top_losers sv df top_k = head (sv True df) top_k"

text \<open>\<open>df["price"] >= m\<close> and \<open>df["price"] <= m\<close>, row by row: false on a null cell.\<close>

definition price_ge :: "pyfloat \<Rightarrow> market_record \<Rightarrow> bool" where
  "price_ge m r = (case price r of None \<Rightarrow> False | Some p \<Rightarrow> fle m p)"

definition price_le :: "pyfloat \<Rightarrow> market_record \<Rightarrow> bool" where
  "price_le m r = (case price r of None \<Rightarrow> False | Some p \<Rightarrow> fle p m)"

definition filter_by_price :: "dataframe \<Rightarrow> pyfloat option \<Rightarrow> pyfloat option \<Rightarrow> dataframe" where
  "filter_by_price df min_price max_price =
     (let df1 = (case min_price of None \<Rightarrow> df | Some m \<Rightarrow> filter (price_ge m) df)
      in case max_price of None \<Rightarrow> df1 | Some m \<Rightarrow> filter (price_le m) df1)"

text \<open>The specification's reading: the price is there and lies within the bounds given.\<close>

definition within_bounds :: "pyfloat option \<Rightarrow> pyfloat option \<Rightarrow> pyfloat option \<Rightarrow> bool" where
  "within_bounds lo hi cell =
     (case cell of
        None \<Rightarrow> False
      | Some p \<Rightarrow> (case lo of None \<Rightarrow> True | Some m \<Rightarrow> fle m p)
                  \<and> (case hi of None \<Rightarrow> True | Some m \<Rightarrow> fle p m))"

section \<open>Scraper\<close>

text \<open>
  What the program prints, one constructor for each \<open>print\<close> of the source, with the
  values the message is built from.
\<close>

datatype message =
    TimeoutNotice
  | RowWarning nat exn
  | BrowserReady
  | NoData
  | Snapshot dataframe
  | PriceFilterView dataframe
  | NoPriceMatch
  | GainersView int dataframe
  | LosersView int dataframe
  | ScrapeError exn
  | Waiting int
  | Stopped
  | WebDriverError exn
  | BrowserClosed

text \<open>
  The world the program acts on: what it has printed, the files, the screenshots saved,
  the browsers launched and the calls of \<open>driver.quit()\<close>.
\<close>

record world =
  stdout :: "message list"
  files :: filesystem
  screenshots :: "pystr list"
  launched :: nat
  quit_calls :: nat

text \<open>
  What the browser does during one call of \<open>scrape_top_n\<close>: whether the refresh or the
  scroll raises, whether each of the two waits is satisfied within the timeout, and the
  rows found afterwards. The cells of a row, or the lookup of its cells, or the text of
  a cell may raise (a stale element, for one).
\<close>

datatype cell = CellText pystr | CellRaises exn

datatype table_row = Row "cell list" | RowRaises exn

record page =
  refresh_raises :: "exn option"
  row_present :: bool
  price_has_dollar :: bool
  table_rows :: "exn + table_row list"

definition then_do :: "exn + 'a \<Rightarrow> ('a \<Rightarrow> exn + 'b) \<Rightarrow> exn + 'b" where
  "then_do m f = (case m of Inl e \<Rightarrow> Inl e | Inr x \<Rightarrow> f x)"

text \<open>\<open>s.split("\n")\<close>: the pieces between the separators, at least one piece.\<close>

fun split_on :: "codepoint \<Rightarrow> pystr \<Rightarrow> pystr list" where
  "split_on sep [] = [[]]"
| "split_on sep (c # cs) =
     (if c = sep then [] # split_on sep cs
      else (case split_on sep cs of [] \<Rightarrow> [[c]] | p # ps \<Rightarrow> (c # p) # ps))"

text \<open>\<open>cols[i].text.strip()\<close>, for \<open>i\<close> within the list.\<close>

definition stripped_text :: "unicode_db \<Rightarrow> cell list \<Rightarrow> nat \<Rightarrow> exn + pystr" where
  "stripped_text u cols i =
     (case cols ! i of CellText t \<Rightarrow> Inr (strip u t) | CellRaises e \<Rightarrow> Inl e)"

text \<open>
  The body of the loop over the rows: \<open>Inr None\<close> is the \<open>continue\<close> of a row with fewer
  than 8 cells, \<open>Inl e\<close> an exception raised in the body.
\<close>

definition extract_row :: "unicode_db \<Rightarrow> table_row \<Rightarrow> exn + market_record option" where
  "extract_row u row =
     (case row of
        RowRaises e \<Rightarrow> Inl e
      | Row cols \<Rightarrow>
          if length cols < 8 then Inr None
          else
            then_do (stripped_text u cols 2) (\<lambda>t2.
            (case split_on 10 t2 of
               [] \<Rightarrow> Inl IndexError
             | nm # rest \<Rightarrow>
                 then_do (stripped_text u cols 3) (\<lambda>price_text.
                 then_do (stripped_text u cols 4) (\<lambda>change_text.
                 then_do (stripped_text u cols 7) (\<lambda>cap_text.
                 then_do (stripped_text u cols 1) (\<lambda>rank_text.
                 then_do (parse_money u price_text) (\<lambda>p.
                 then_do (parse_percent u change_text) (\<lambda>c.
                 then_do (parse_money u cap_text) (\<lambda>m.
                   Inr (Some \<lparr>rank = rank_text, name = nm,
                              symbol = (case rest of [] \<Rightarrow> [] | sy # _ \<Rightarrow> sy),
                              price = p, change_24h = c, market_cap = m\<rparr>)))))))))))"

text \<open>
  The loop over \<open>enumerate(rows[:n])\<close>: the handler of the body catches what derives from
  \<open>Exception\<close>, prints the warning with the index and goes on; anything else leaves the
  function. The result comes with the messages printed.
\<close>

fun scrape_rows ::
  "unicode_db \<Rightarrow> nat \<Rightarrow> table_row list \<Rightarrow> (exn + market_record list) \<times> message list" where
  "scrape_rows u i [] = (Inr [], [])"
| "scrape_rows u i (row # rows) =
     (case extract_row u row of
        Inr None \<Rightarrow> scrape_rows u (Suc i) rows
      | Inr (Some r) \<Rightarrow>
          (case scrape_rows u (Suc i) rows of
             (Inr rs, msgs) \<Rightarrow> (Inr (r # rs), msgs)
           | (Inl e, msgs) \<Rightarrow> (Inl e, msgs))
      | Inl e \<Rightarrow>
          if is_Exception e
          then (case scrape_rows u (Suc i) rows of (res, msgs) \<Rightarrow> (res, RowWarning i e # msgs))
          else (Inl e, []))"

text \<open>\<open>rows[:n]\<close>: the first \<open>n\<close> rows, or all but the last \<open>-n\<close> when \<open>n\<close> is negative.\<close>

definition slice_to :: "'a list \<Rightarrow> int \<Rightarrow> 'a list" where
  "slice_to xs n = (if 0 \<le> n then take (nat n) xs else take (length xs - nat (- n)) xs)"

text \<open>The \<open>try\<close> block: refresh and scroll, then the two waits, each of which times out alone.\<close>

definition wait_ready :: "page \<Rightarrow> exn + unit" where
  "wait_ready driver =
     (case refresh_raises driver of
        Some e \<Rightarrow> Inl e
      | None \<Rightarrow>
          if \<not> row_present driver then Inl TimeoutException
          else if \<not> price_has_dollar driver then Inl TimeoutException
          else Inr ())"

definition scrape_top_n ::
  "unicode_db \<Rightarrow> page \<Rightarrow> int \<Rightarrow> world \<Rightarrow> (exn + market_record list) \<times> world" where
  "scrape_top_n u driver n w =
     (case wait_ready driver of
        Inl e \<Rightarrow>
          if e = TimeoutException
          then (Inr [], w\<lparr>screenshots := screenshots w @ [ascii ''debug_timeout.png''],
                          stdout := stdout w @ [TimeoutNotice]\<rparr>)
          else (Inl e, w)
      | Inr _ \<Rightarrow>
          (case table_rows driver of
             Inl e \<Rightarrow> (Inl e, w)
           | Inr rows \<Rightarrow>
               (case scrape_rows u 0 (slice_to rows n) of
                  (res, msgs) \<Rightarrow> (res, w\<lparr>stdout := stdout w @ msgs\<rparr>))))"

section \<open>Main loop\<close>

record args =
  headless :: bool
  topn :: int
  output_file :: pystr
  timeout :: int
  interval :: int
  show_gainers :: int
  show_losers :: int
  min_price :: "pyfloat option"
  max_price :: "pyfloat option"

text \<open>The truth value of an optional float: \<open>None\<close> and zero are false.\<close>

fun truthy :: "pyfloat option \<Rightarrow> bool" where
  "truthy None = False"
| "truthy (Some (Finite m e)) = (m \<noteq> 0)"
| "truthy (Some (Infinity s)) = True"
| "truthy (Some NaN) = True"

text \<open>
  \<open>build_driver\<close> installs the driver binary, launches the browser and loads the page;
  each step may raise, the last one after the browser was launched.
\<close>

datatype acquisition = Acquired | InstallFails exn | LaunchFails exn | GetFails exn

definition build_driver :: "bool \<Rightarrow> acquisition \<Rightarrow> world \<Rightarrow> (exn + unit) \<times> world" where
  "build_driver hl acq w =
     (case acq of
        InstallFails e \<Rightarrow> (Inl e, w)
      | LaunchFails e \<Rightarrow> (Inl e, w)
      | GetFails e \<Rightarrow> (Inl e, w\<lparr>launched := Suc (launched w)\<rparr>)
      | Acquired \<Rightarrow> (Inr (), w\<lparr>launched := Suc (launched w)\<rparr>))"

text \<open>
  One pass of the loop meets one \<open>cycle\<close>: the browser's behaviour during the scrape, the
  clock read when the records are saved, and whether an interrupt arrives during the
  sleep.
\<close>

record cycle =
  driver :: page
  clock :: pystr
  sleep_interrupted :: bool

text \<open>The views printed after a save, each behind its condition.\<close>

definition price_view :: "args \<Rightarrow> dataframe \<Rightarrow> message list" where
  "price_view a df =
     (if truthy (min_price a) \<or> truthy (max_price a)
      then (if filter_by_price df (min_price a) (max_price a) \<noteq> []
            then [PriceFilterView (filter_by_price df (min_price a) (max_price a))]
            else [NoPriceMatch])
      else [])"

definition gainers_view :: "sorter \<Rightarrow> args \<Rightarrow> dataframe \<Rightarrow> message list" where
  "gainers_view sv a df =
     (if show_gainers a \<noteq> 0
      then [GainersView (show_gainers a) (filter_top_gainers sv df (show_gainers a))]
      else [])"

definition losers_view :: "sorter \<Rightarrow> args \<Rightarrow> dataframe \<Rightarrow> message list" where
  "losers_view sv a df =
     (if show_losers a \<noteq> 0
      then [LosersView (show_losers a) (filter_top_losers sv df (show_losers a))]
      else [])"

text \<open>
  The inner \<open>try\<close> with its handler \<open>except Exception\<close>: the result is the exception that
  the handler does not catch, if there is one.
\<close>

definition cycle_body ::
  "unicode_db \<Rightarrow> sorter \<Rightarrow> args \<Rightarrow> cycle \<Rightarrow> world \<Rightarrow> exn option \<times> world" where
  "cycle_body u sv a c w =
     (case scrape_top_n u (driver c) (topn a) w of
        (Inl e, w1) \<Rightarrow>
          if is_Exception e then (None, w1\<lparr>stdout := stdout w1 @ [ScrapeError e]\<rparr>)
          else (Some e, w1)
      | (Inr records, w1) \<Rightarrow>
          if records = [] then (None, w1\<lparr>stdout := stdout w1 @ [NoData]\<rparr>)
          else (None,
                w1\<lparr>files := save_to_csv records (output_file a) (clock c) (files w1),
                   stdout := stdout w1 @ [Snapshot records] @ price_view a records
                               @ gainers_view sv a records @ losers_view sv a records\<rparr>))"

text \<open>\<open>time.sleep(secs)\<close>: a negative length is a \<open>ValueError\<close>; an interrupt ends the sleep.\<close>

definition sleep :: "int \<Rightarrow> bool \<Rightarrow> exn + unit" where
  "sleep secs interrupted =
     (if secs < 0 then Inl ValueError
      else if interrupted then Inl KeyboardInterrupt
      else Inr ())"

text \<open>
  \<open>while True\<close>, run against the cycles that the environment provides. The loop leaves by
  \<open>break\<close> or by an exception; when the cycles are used up it is still running.
\<close>

datatype loop_exit = Broke | Raised exn | Running

fun loop ::
  "unicode_db \<Rightarrow> sorter \<Rightarrow> args \<Rightarrow> cycle list \<Rightarrow> world \<Rightarrow> loop_exit \<times> world" where
  "loop u sv a [] w = (Running, w)"
| "loop u sv a (c # cs) w =
     (case cycle_body u sv a c w of
        (Some e, w1) \<Rightarrow> (Raised e, w1)
      | (None, w1) \<Rightarrow>
          (case sleep (interval a) (sleep_interrupted c) of
             Inr _ \<Rightarrow> loop u sv a cs (w1\<lparr>stdout := stdout w1 @ [Waiting (interval a)]\<rparr>)
           | Inl e \<Rightarrow>
               if e = KeyboardInterrupt
               then (Broke, w1\<lparr>stdout := stdout w1 @ [Waiting (interval a), Stopped]\<rparr>)
               else (Raised e, w1\<lparr>stdout := stdout w1 @ [Waiting (interval a)]\<rparr>)))"

text \<open>
  \<open>main\<close>: the outer \<open>try\<close> with \<open>except WebDriverException\<close> and the \<open>finally\<close> block, which
  quits the driver when the handle is not \<open>None\<close>. \<open>main\<close> returns, or an exception leaves
  it and ends the process, or the loop is still running.
\<close>

datatype main_exit = Returned | Uncaught exn | StillRunning

definition quit :: "world \<Rightarrow> world" where
  "quit w = w\<lparr>quit_calls := Suc (quit_calls w), stdout := stdout w @ [BrowserClosed]\<rparr>"

definition main ::
  "unicode_db \<Rightarrow> sorter \<Rightarrow> args \<Rightarrow> acquisition \<Rightarrow> cycle list \<Rightarrow> world \<Rightarrow> main_exit \<times> world" where
  "main u sv a acq cs w =
     (case build_driver (headless a) acq w of
        (Inl e, w1) \<Rightarrow>
          if is_WebDriverException e
          then (Returned, w1\<lparr>stdout := stdout w1 @ [WebDriverError e]\<rparr>)
          else (Uncaught e, w1)
      | (Inr _, w1) \<Rightarrow>
          (case loop u sv a cs (w1\<lparr>stdout := stdout w1 @ [BrowserReady]\<rparr>) of
             (Broke, w2) \<Rightarrow> (Returned, quit w2)
           | (Raised e, w2) \<Rightarrow>
               if is_WebDriverException e
               then (Returned, quit (w2\<lparr>stdout := stdout w2 @ [WebDriverError e]\<rparr>))
               else (Uncaught e, quit w2)
           | (Running, w2) \<Rightarrow> (StillRunning, w2)))"

section \<open>Readings of the specification and sample data\<close>

text \<open>
  The first \<open>k\<close> rows of some ordering of the frame in which the rows with a change come
  first, ordered by it, and the rows without one follow in their original order.
\<close>

definition top_rows :: "bool \<Rightarrow> dataframe \<Rightarrow> int \<Rightarrow> dataframe \<Rightarrow> bool" where
  "top_rows asc df k out =
     (\<exists>body. mset body = mset (filter (\<lambda>r. \<not> isna (change_24h r)) df)
           \<and> sorted_wrt (in_order asc) body
           \<and> out = take (nat k) (body @ filter (\<lambda>r. isna (change_24h r)) df))"

definition coin :: "string \<Rightarrow> pyfloat option \<Rightarrow> pyfloat option \<Rightarrow> market_record" where
  "coin nm p c =
     \<lparr>rank = [], name = ascii nm, symbol = [], price = p, change_24h = c, market_cap = None\<rparr>"

text \<open>
  What one row contributes to the result of \<open>scrape_top_n\<close> and to its output: the record
  extracted from it, if any, and the warning with the row's index, if the body raised.
  A row is \<open>catchable\<close> when what it raises, if anything, derives from \<open>Exception\<close>.
\<close>

definition row_records :: "unicode_db \<Rightarrow> table_row \<Rightarrow> market_record list" where
  "row_records u row = (case extract_row u row of Inr (Some r) \<Rightarrow> [r] | _ \<Rightarrow> [])"

definition row_warnings :: "unicode_db \<Rightarrow> nat \<Rightarrow> table_row \<Rightarrow> message list" where
  "row_warnings u i row = (case extract_row u row of Inl e \<Rightarrow> [RowWarning i e] | _ \<Rightarrow> [])"

fun warnings_from :: "unicode_db \<Rightarrow> nat \<Rightarrow> table_row list \<Rightarrow> message list" where
  "warnings_from u i [] = []"
| "warnings_from u i (row # rows) = row_warnings u i row @ warnings_from u (Suc i) rows"

definition catchable :: "unicode_db \<Rightarrow> table_row \<Rightarrow> bool" where
  "catchable u row = (case extract_row u row of Inl e \<Rightarrow> is_Exception e | _ \<Rightarrow> True)"

text \<open>The command line's defaults, an empty world, and some cycles.\<close>

definition default_args :: args where
  "default_args =
     \<lparr>headless = False, topn = 10, output_file = ascii ''crypto_prices.csv'', timeout = 30,
      interval = 10, show_gainers = 5, show_losers = 5, min_price = None, max_price = None\<rparr>"

definition empty_world :: world where
  "empty_world = \<lparr>stdout = [], files = Map.empty, screenshots = [], launched = 0, quit_calls = 0\<rparr>"

definition bitcoin_row :: table_row where
  "bitcoin_row =
     Row [CellText [], CellText (ascii ''1''), CellText (ascii ''Bitcoin'' @ [10] @ ascii ''BTC''),
          CellText (ascii ''$64,000''), CellText (ascii ''+3.25%''), CellText [], CellText [],
          CellText (ascii ''$1.2T'')]"

definition bitcoin :: market_record where
  "bitcoin =
     \<lparr>rank = ascii ''1'', name = ascii ''Bitcoin'', symbol = ascii ''BTC'',
      price = Some (nearest_double 64000 1), change_24h = Some (nearest_double 325 100),
      market_cap = Some (nearest_double 1200000000000 1)\<rparr>"

definition loaded :: "table_row list \<Rightarrow> bool \<Rightarrow> cycle" where
  "loaded rows intr =
     \<lparr>driver = \<lparr>refresh_raises = None, row_present = True, price_has_dollar = True,
                 table_rows = Inr rows\<rparr>,
      clock = ascii ''2024-01-01T00:00:00+00:00'', sleep_interrupted = intr\<rparr>"

definition timed_out :: cycle where
  "timed_out =
     \<lparr>driver = \<lparr>refresh_raises = None, row_present = True, price_has_dollar = False,
                 table_rows = Inr []\<rparr>,
      clock = ascii ''2024-01-01T00:00:00+00:00'', sleep_interrupted = False\<rparr>"

definition crashed :: cycle where
  "crashed =
     \<lparr>driver = \<lparr>refresh_raises = Some WebDriverException, row_present = False,
                 price_has_dollar = False, table_rows = Inl WebDriverException\<rparr>,
      clock = ascii ''2024-01-01T00:00:00+00:00'', sleep_interrupted = False\<rparr>"

section \<open>Properties of the parsers\<close>

lemmas float_eval =
  nearest_double_def round_at_def pack_def significand_def binade_def binade_from_def
  round_dyadic_def round_div_def bit_length.simps normalise.simps fmul_int_def

lemmas parse_eval =
  parse_money_def parse_percent_def py_float_def parse_decimal_def parse_exponent_def
  parse_inf_or_nan_def tolower_def c_strip_def c_isspace_def is_digit_def strip_def
  isspace_def endswith_def ascii_def EM_DASH_def Let_def

text \<open>Replacing a single character by nothing removes every occurrence of it.\<close>

lemma replace_single: "replace [c] [] s = filter (\<lambda>x. x \<noteq> c) s"
  by (induction s) auto

text \<open>\<open>float(str)\<close> raises nothing but \<open>ValueError\<close>, and raises it on the empty string.\<close>

lemma py_float_error: "py_float u s = Inl e \<Longrightarrow> e = ValueError"
  by (auto simp: py_float_def Let_def split: if_splits option.splits)

lemma py_float_empty: "py_float u [] = Inl ValueError"
  by (simp add: py_float_def c_strip_def parse_inf_or_nan_def parse_decimal_def ascii_def)

lemma endswith_single: "endswith t [c] \<longleftrightarrow> t \<noteq> [] \<and> last t = c"
proof (cases t rule: rev_cases)
  case Nil
  then show ?thesis by (simp add: endswith_def)
next
  case (snoc ys y)
  then show ?thesis by (auto simp: endswith_def)
qed

lemma money_clean:
  "replace [EM_DASH] [] (replace (ascii ''$'') [] (replace (ascii '','') [] text)) =
   filter (\<lambda>c. c \<noteq> 36 \<and> c \<noteq> 44 \<and> c \<noteq> EM_DASH) text"
  by (simp add: ascii_def replace_single conj_commute conj_left_commute)

lemma percent_clean:
  "replace (ascii '','') [] (replace (ascii ''+'') [] (replace (ascii ''%'') [] text)) =
   filter (\<lambda>c. c \<noteq> 37 \<and> c \<noteq> 43 \<and> c \<noteq> 44) text"
  by (simp add: ascii_def replace_single conj_commute conj_left_commute)

text \<open>
  The chain of \<open>endswith\<close> tests in \<open>parse_money\<close> is the lookup of the last character in
  the table of suffixes.
\<close>

lemma parse_money_eq:
  "parse_money u text =
     (if text = [] then Inr None
      else spec_money u (strip u (filter (\<lambda>c. c \<noteq> 36 \<and> c \<noteq> 44 \<and> c \<noteq> EM_DASH) text)))"
proof (cases "text = []")
  case True
  then show ?thesis by (simp add: parse_money_def)
next
  case False
  define t where "t = strip u (filter (\<lambda>c. c \<noteq> 36 \<and> c \<noteq> 44 \<and> c \<noteq> EM_DASH) text)"
  have "parse_money u text = spec_money u t"
    using False py_float_error [of u]
    unfolding parse_money_def money_clean t_def [symmetric] Let_def spec_money_def
    by (auto simp: endswith_single ascii_def suffix_factor_def scaled_def split: sum.splits)
  then show ?thesis using False by (simp add: t_def)
qed

lemma spec_money_empty: "spec_money u (strip u []) = Inr None"
  by (simp add: spec_money_def strip_def scaled_def py_float_empty)

lemma parse_money_total: "\<exists>r. parse_money u text = Inr r"
  by (simp add: parse_money_eq spec_money_def scaled_def split: option.splits sum.splits)

lemma parse_money_ignores:
  "parse_money u (filter (\<lambda>c. c \<noteq> 36 \<and> c \<noteq> 44 \<and> c \<noteq> EM_DASH) text) = parse_money u text"
  by (simp add: parse_money_eq spec_money_empty)

lemma parse_percent_eq:
  "parse_percent u text =
     (if text = [] then Inr None
      else (case py_float u (strip u (filter (\<lambda>c. c \<noteq> 37 \<and> c \<noteq> 43 \<and> c \<noteq> 44) text)) of
              Inr x \<Rightarrow> Inr (Some x)
            | Inl e \<Rightarrow> Inr None))"
  using py_float_error [of u]
  unfolding parse_percent_def percent_clean Let_def
  by (auto split: sum.splits)

lemma parse_percent_total: "\<exists>r. parse_percent u text = Inr r"
  by (simp add: parse_percent_eq split: sum.splits)

lemma parse_percent_ignores:
  "parse_percent u (filter (\<lambda>c. c \<noteq> 37 \<and> c \<noteq> 43 \<and> c \<noteq> 44) text) = parse_percent u text"
  by (simp add: parse_percent_eq strip_def py_float_empty)

text \<open>
  \<open>float\<close> rejects every text that ends in one of the four suffixes, so a second suffix
  left by \<open>parse_money\<close> makes the text unparseable.
\<close>

lemma last_dropWhile:
  "xs \<noteq> [] \<Longrightarrow> \<not> P (last xs) \<Longrightarrow> dropWhile P xs \<noteq> [] \<and> last (dropWhile P xs) = last xs"
  by (induction xs) (auto split: if_splits)

lemma last_filter:
  "xs \<noteq> [] \<Longrightarrow> P (last xs) \<Longrightarrow> filter P xs \<noteq> [] \<and> last (filter P xs) = last xs"
  by (induction xs) (auto split: if_splits)

lemma last_c_strip:
  assumes "xs \<noteq> []" "\<not> c_isspace (last xs)"
  shows "c_strip xs \<noteq> [] \<and> last (c_strip xs) = last xs"
proof -
  define ys where "ys = dropWhile c_isspace xs"
  from last_dropWhile [of xs c_isspace] assms
  have ys: "ys \<noteq> []" "last ys = last xs" by (simp_all add: ys_def)
  from ys(1) obtain zs z where z: "ys = zs @ [z]" by (cases ys rule: rev_cases) auto
  with ys(2) assms(2) have "dropWhile c_isspace (rev ys) = rev ys" by simp
  then have "c_strip xs = ys" by (simp add: c_strip_def ys_def)
  with ys show ?thesis by simp
qed

lemma last_to_ascii:
  "c = 75 \<or> c = 77 \<or> c = 66 \<or> c = 84 \<Longrightarrow>
   to_ascii u (s @ [c]) \<noteq> [] \<and> bad_last (last (to_ascii u (s @ [c])))"
  by (induction s) (auto simp: bad_last_def split: option.splits)

lemma parse_sign_rest:
  "parse_sign t = (neg, r) \<Longrightarrow> r = [] \<or> (t \<noteq> [] \<and> last r = last t)"
  by (cases t) (auto split: if_splits)

lemma inf_or_nan_rejected:
  assumes "t \<noteq> []" "bad_last (last t)"
  shows "parse_inf_or_nan t = None"
proof -
  obtain neg r where p: "parse_sign t = (neg, r)" by (cases "parse_sign t")
  have l: "last (map tolower r) = tolower (last t)" if "r \<noteq> []"
    using parse_sign_rest [OF p] that by (simp add: last_map)
  have "map tolower r \<noteq> ascii ''inf''" "map tolower r \<noteq> ascii ''infinity''"
    "map tolower r \<noteq> ascii ''nan''"
    using l assms(2) by (auto simp: ascii_def bad_last_def tolower_def)
  with p show ?thesis by (simp add: parse_inf_or_nan_def)
qed

lemma exponent_rejected:
  assumes "r \<noteq> []" "bad_last (last r)"
  shows "parse_exponent r = None"
proof (cases r)
  case Nil
  with assms show ?thesis by simp
next
  case (Cons e t)
  show ?thesis
  proof (cases "e = 101 \<or> e = 69")
    case False
    with Cons show ?thesis by (simp add: parse_exponent_def)
  next
    case True
    with assms Cons have t: "t \<noteq> []" "last t = last r" by (auto simp: bad_last_def)
    obtain neg ds where p: "parse_sign t = (neg, ds)" by (cases "parse_sign t")
    have "\<not> (ds \<noteq> [] \<and> list_all is_digit ds)"
    proof
      assume d: "ds \<noteq> [] \<and> list_all is_digit ds"
      with parse_sign_rest [OF p] t have "last ds = last r" by simp
      moreover from d have "is_digit (last ds)" by (simp add: list_all_iff)
      ultimately show False using assms(2) by (auto simp: bad_last_def is_digit_def)
    qed
    with Cons True p show ?thesis by (simp add: parse_exponent_def)
  qed
qed

lemma decimal_rejected:
  assumes "t \<noteq> []" "bad_last (last t)"
  shows "parse_decimal t = None"
proof -
  obtain neg r where p: "parse_sign t = (neg, r)" by (cases "parse_sign t")
  have nd: "\<not> is_digit (last t)" and np: "last t \<noteq> 46"
    using assms(2) by (auto simp: bad_last_def is_digit_def)
  show ?thesis
  proof (cases "r = []")
    case True
    with p show ?thesis by (simp add: parse_decimal_def)
  next
    case False
    with parse_sign_rest [OF p] have lr: "last r = last t" by simp
    define r1 where "r1 = dropWhile is_digit r"
    from last_dropWhile [OF False, of is_digit] lr nd
    have r1: "r1 \<noteq> []" "last r1 = last t" by (simp_all add: r1_def)
    define r2 where
      "r2 = (case r1 of [] \<Rightarrow> [] | c # u \<Rightarrow> if c = 46 then dropWhile is_digit u else r1)"
    have "r2 \<noteq> [] \<and> last r2 = last t"
    proof (cases r1)
      case Nil
      with r1 show ?thesis by simp
    next
      case (Cons c u)
      show ?thesis
      proof (cases "c = 46")
        case False
        with Cons r1 show ?thesis by (simp add: r2_def)
      next
        case True
        with Cons r1 np have u: "u \<noteq> []" "last u = last t" by (auto split: if_splits)
        from last_dropWhile [OF u(1), of is_digit] u(2) nd True Cons
        show ?thesis by (simp add: r2_def)
      qed
    qed
    with assms(2) have "parse_exponent r2 = None" by (simp add: exponent_rejected)
    then have "parse_exponent
        (case dropWhile is_digit r of [] \<Rightarrow> []
         | c # u \<Rightarrow> if c = 46 then dropWhile is_digit u else dropWhile is_digit r) = None"
      unfolding r2_def r1_def .
    with p show ?thesis by (simp add: parse_decimal_def Let_def)
  qed
qed

lemma py_float_suffix_rejected:
  assumes "c = 75 \<or> c = 77 \<or> c = 66 \<or> c = 84"
  shows "py_float u (s @ [c]) = Inl ValueError"
proof -
  define a where "a = to_ascii u (s @ [c])"
  from last_to_ascii [OF assms] have a: "a \<noteq> []" "bad_last (last a)" by (simp_all add: a_def)
  then have "last a \<noteq> 95" by (auto simp: bad_last_def)
  with last_filter [OF a(1), of "\<lambda>c. c \<noteq> 95"]
  have f: "filter (\<lambda>c. c \<noteq> 95) a \<noteq> []" "last (filter (\<lambda>c. c \<noteq> 95) a) = last a" by simp_all
  from a(2) have "\<not> c_isspace (last a)" by (auto simp: bad_last_def c_isspace_def)
  with last_c_strip [OF f(1)] f(2)
  have t: "c_strip (filter (\<lambda>c. c \<noteq> 95) a) \<noteq> []"
    "last (c_strip (filter (\<lambda>c. c \<noteq> 95) a)) = last a" by simp_all
  with a(2) have "parse_inf_or_nan (c_strip (filter (\<lambda>c. c \<noteq> 95) a)) = None"
    "parse_decimal (c_strip (filter (\<lambda>c. c \<noteq> 95) a)) = None"
    by (simp_all add: inf_or_nan_rejected decimal_rejected)
  then show ?thesis by (simp add: py_float_def a_def [symmetric] Let_def)
qed

lemma spec_money_two_suffixes:
  assumes "suffix_factor c \<noteq> None" "suffix_factor d \<noteq> None"
  shows "spec_money u (r @ [d, c]) = Inr None"
proof -
  from assms(2) have d: "d = 75 \<or> d = 77 \<or> d = 66 \<or> d = 84"
    by (auto simp: suffix_factor_def split: if_splits)
  have "butlast (r @ [d, c]) = r @ [d]" by (simp add: butlast_append)
  with assms(1) py_float_suffix_rejected [OF d, of u r] show ?thesis
    by (auto simp: spec_money_def scaled_def)
qed

lemma parse_money_two_suffixes:
  assumes "suffix_factor c \<noteq> None" "suffix_factor d \<noteq> None"
    and "strip u (filter (\<lambda>c. c \<noteq> 36 \<and> c \<noteq> 44 \<and> c \<noteq> EM_DASH) text) = r @ [d, c]"
  shows "parse_money u text = Inr None"
proof -
  from assms(3) have "text \<noteq> []" by (auto simp: strip_def)
  with assms show ?thesis by (simp add: parse_money_eq spec_money_two_suffixes)
qed

text \<open>
  A minus sign before an unsigned numeral changes the sign of the float and nothing
  else, in \<open>float\<close> and so in \<open>parse_percent\<close>.
\<close>

lemma fneg_fneg [simp]: "fneg (fneg x) = x"
  by (cases x) simp_all

lemma normalise_neg: "normalise (- m) e = fneg (normalise m e)"
proof (induction m e rule: normalise.induct)
  case (1 m e)
  show ?case
  proof (cases "m = 0")
    case True
    then show ?thesis by (simp add: normalise.simps)
  next
    case False
    show ?thesis
    proof (cases "even m")
      case True
      then have "(- m) div 2 = - (m div 2)" by auto
      with 1 [OF False True] False True show ?thesis
        by (simp add: normalise.simps [of m] normalise.simps [of "- m"])
    next
      case odd: False
      with False show ?thesis
        by (simp add: normalise.simps [of m] normalise.simps [of "- m"])
    qed
  qed
qed

lemma nearest_double_neg: "nearest_double (- n) d = fneg (nearest_double n d)"
proof (cases "n = 0")
  case True
  then show ?thesis by (simp add: nearest_double_def)
next
  case False
  then have "(- n < 0) = (\<not> n < 0)" by auto
  with False show ?thesis
    by (simp add: nearest_double_def round_at_def pack_def normalise_neg)
qed

lemma strip_cons:
  assumes "\<not> P c" "\<not> P d"
  shows "rev (dropWhile P (rev (dropWhile P (c # d # t))))
         = c # rev (dropWhile P (rev (dropWhile P (d # t))))"
proof -
  have "dropWhile P (rev (d # t) @ [c]) = dropWhile P (rev (d # t)) @ [c]"
    by (rule dropWhile_append1 [of d]) (use assms in auto)
  with assms show ?thesis by simp
qed

lemma minus_not_space: "\<not> isspace u 45" "\<not> c_isspace 45"
  by (simp_all add: isspace_def c_isspace_def)

lemma numeral_start_not_space: "numeral_start d \<Longrightarrow> \<not> isspace u d \<and> \<not> c_isspace d"
  by (auto simp: numeral_start_def is_digit_def isspace_def c_isspace_def)

lemma strip_head:
  assumes "\<not> P d"
  shows "\<exists>b. rev (dropWhile P (rev (dropWhile P (d # f)))) = d # b"
proof -
  have "\<exists>ws. dropWhile P (rev f @ [d]) = ws @ [d]"
    using assms by (simp add: dropWhile_append)
  then obtain ws where "dropWhile P (rev f @ [d]) = ws @ [d]" ..
  with assms show ?thesis by simp
qed

lemma parse_minus:
  assumes "parse_sign v = (False, v)"
  shows "parse_inf_or_nan (45 # v) = map_option fneg (parse_inf_or_nan v)"
    and "parse_decimal (45 # v) = map_option fneg (parse_decimal v)"
proof -
  show "parse_inf_or_nan (45 # v) = map_option fneg (parse_inf_or_nan v)"
    using assms by (simp add: parse_inf_or_nan_def Let_def)
  have n: "nearest_double (- x * y) z = fneg (nearest_double (x * y) z)" for x y z
    using nearest_double_neg [of "x * y" z] by simp
  show "parse_decimal (45 # v) = map_option fneg (parse_decimal v)"
    using assms
    by (simp add: parse_decimal_def Let_def n nearest_double_neg split: option.splits)
qed

lemma py_float_minus:
  assumes "numeral_start d"
  shows "py_float u (45 # d # t) = map_sum id fneg (py_float u (d # t))"
proof -
  from assms have d: "d < 127" "d \<noteq> 95" "d \<noteq> 45" "d \<noteq> 43" "\<not> c_isspace d"
    by (auto simp: numeral_start_def is_digit_def c_isspace_def)
  define a where "a = to_ascii u t"
  have a1: "to_ascii u (d # t) = d # a" and a2: "to_ascii u (45 # d # t) = 45 # d # a"
    using d(1) by (simp_all add: a_def)
  have uo: "underscores_ok 0 (45 # d # a) = underscores_ok 0 (d # a)"
    using d(2) by simp
  define f where "f = filter (\<lambda>c. c \<noteq> 95) a"
  have f1: "filter (\<lambda>c. c \<noteq> 95) (d # a) = d # f"
    and f2: "filter (\<lambda>c. c \<noteq> 95) (45 # d # a) = 45 # d # f"
    using d(2) by (simp_all add: f_def)
  have s2: "c_strip (45 # d # f) = 45 # c_strip (d # f)"
    unfolding c_strip_def by (rule strip_cons) (use d(5) minus_not_space in auto)
  from strip_head [of c_isspace d f] d(5) obtain b where b: "c_strip (d # f) = d # b"
    unfolding c_strip_def by blast
  have ps: "parse_sign (d # b) = (False, d # b)" using d(3,4) by simp
  show ?thesis
    unfolding py_float_def Let_def a1 a2 uo f1 f2 s2 b parse_minus [OF ps]
    by (simp split: option.splits)
qed

lemma parse_percent_minus:
  assumes "filter (\<lambda>c. c \<noteq> 37 \<and> c \<noteq> 43 \<and> c \<noteq> 44) text = d # t" "numeral_start d"
  shows "parse_percent u (45 # text) = negated (parse_percent u text)"
proof -
  from assms(1) have ne: "text \<noteq> []" by auto
  from numeral_start_not_space [OF assms(2), of u] have sp: "\<not> isspace u d" by simp
  have s2: "strip u (45 # d # t) = 45 # strip u (d # t)"
    unfolding strip_def by (rule strip_cons) (use sp minus_not_space in auto)
  from strip_head [of "isspace u" d t] sp obtain b where b: "strip u (d # t) = d # b"
    unfolding strip_def by blast
  show ?thesis
    using ne by (simp add: parse_percent_eq assms(1) s2 b py_float_minus [OF assms(2)] negated_def
          split: sum.splits)
qed

text \<open>The examples, for every character database.\<close>

lemma money_64000: "parse_money u (ascii ''$64,000'') = Inr (Some (nearest_double 64000 1))"
  by (simp add: parse_eval float_eval)

lemma money_1_2B: "parse_money u (ascii ''$1.2B'') = Inr (Some (nearest_double 1200000000 1))"
  by (simp add: parse_eval float_eval)

lemma money_dash: "parse_money u [EM_DASH] = Inr None"
  by (simp add: parse_eval)

lemma money_0_5K: "parse_money u (ascii ''$0.5K'') = Inr (Some (nearest_double 500 1))"
  by (simp add: parse_eval float_eval)

lemma money_two_points: "parse_money u (ascii ''$1.2.3'') = Inr None"
  by (simp add: parse_eval)

lemma money_two_suffixes: "parse_money u (ascii ''$5KM'') = Inr None"
  by (simp add: parse_eval)

lemma money_lower_case: "parse_money u (ascii ''$5k'') = Inr None"
  by (simp add: parse_eval)

lemma percent_3_25: "parse_percent u (ascii ''+3.25%'') = Inr (Some (nearest_double 325 100))"
  by (simp add: parse_eval float_eval)

lemma percent_minus: "parse_percent u (ascii ''-1.5%'') = Inr (Some (nearest_double (- 15) 10))"
  by (simp add: parse_eval float_eval)

lemma percent_inner_plus: "parse_percent u (ascii ''1+2%'') = Inr (Some (nearest_double 12 1))"
  by (simp add: parse_eval float_eval)

lemma spec_percent_inner_plus: "spec_parse_percent u (ascii ''1+2%'') = Inr None"
  by (simp add: spec_parse_percent_def parse_eval)

text \<open>The floats of the examples: \<open>64000 = 125 * 2 ^ 9\<close>, \<open>3.25 = 13 / 2 ^ 2\<close> and so on.\<close>

lemma example_doubles:
  "nearest_double 64000 1 = Finite 125 9"
  "nearest_double 1200000000 1 = Finite 1171875 10"
  "nearest_double 500 1 = Finite 125 2"
  "nearest_double 325 100 = Finite 13 (- 2)"
  "nearest_double (- 15) 10 = Finite (- 3) (- 1)"
  "nearest_double 12 1 = Finite 3 2"
  by (simp_all add: float_eval)

text \<open>Their values: 64000, 1200000000, 500, 13/4, -3/2 and 12.\<close>

lemma example_values:
  "float_ratio (nearest_double 64000 1) = Some (64000, 1)"
  "float_ratio (nearest_double 1200000000 1) = Some (1200000000, 1)"
  "float_ratio (nearest_double 500 1) = Some (500, 1)"
  "float_ratio (nearest_double 325 100) = Some (13, 4)"
  "float_ratio (nearest_double (- 15) 10) = Some (- 3, 2)"
  "float_ratio (nearest_double 12 1) = Some (12, 1)"
  by (simp_all add: example_doubles)

text \<open>
  Claim C1. For every input string \<open>parse_money\<close> never raises. It returns \<open>None\<close> on the
  empty string. Otherwise it removes every dollar sign, comma and em dash (so they do
  not change the result), trims white space, takes at most one of the suffixes K, M, B,
  T (in upper case only) off the end, parses what is left with \<open>float\<close> and multiplies by
  the factor of the suffix, 1 without a suffix; it returns \<open>None\<close> when \<open>float\<close> rejects
  what is left. The five examples of the specification hold, a numeral with two
  decimal points gives \<open>None\<close>, and so does a suffix in lower case. A second suffix
  before the one taken off always gives \<open>None\<close>.
\<close>

theorem parse_money_spec:
  "(\<exists>r. parse_money u text = Inr r)
   \<and> parse_money u [] = Inr None
   \<and> parse_money u text =
       (if text = [] then Inr None
        else spec_money u (strip u (filter (\<lambda>c. c \<noteq> 36 \<and> c \<noteq> 44 \<and> c \<noteq> EM_DASH) text)))
   \<and> parse_money u (filter (\<lambda>c. c \<noteq> 36 \<and> c \<noteq> 44 \<and> c \<noteq> EM_DASH) text) = parse_money u text
   \<and> parse_money u (ascii ''$64,000'') = Inr (Some (nearest_double 64000 1))
   \<and> parse_money u (ascii ''$1.2B'') = Inr (Some (nearest_double 1200000000 1))
   \<and> parse_money u [EM_DASH] = Inr None
   \<and> parse_money u (ascii ''$0.5K'') = Inr (Some (nearest_double 500 1))
   \<and> parse_money u (ascii ''$1.2.3'') = Inr None
   \<and> parse_money u (ascii ''$5KM'') = Inr None
   \<and> parse_money u (ascii ''$5k'') = Inr None
   \<and> (suffix_factor c \<noteq> None \<and> suffix_factor d \<noteq> None
        \<and> strip u (filter (\<lambda>c. c \<noteq> 36 \<and> c \<noteq> 44 \<and> c \<noteq> EM_DASH) text) = r @ [d, c]
      \<longrightarrow> parse_money u text = Inr None)"
proof (intro conjI impI parse_money_total parse_money_eq parse_money_ignores money_64000
        money_1_2B money_dash money_0_5K money_two_points money_two_suffixes money_lower_case)
  show "parse_money u [] = Inr None" by (simp add: parse_money_def)
next
  assume "suffix_factor c \<noteq> None \<and> suffix_factor d \<noteq> None
        \<and> strip u (filter (\<lambda>c. c \<noteq> 36 \<and> c \<noteq> 44 \<and> c \<noteq> EM_DASH) text) = r @ [d, c]"
  then show "parse_money u text = Inr None" by (blast intro: parse_money_two_suffixes)
qed

text \<open>
  The theorem at one input: an amount with an underscore between digits, which \<open>float\<close>
  accepts, and the suffix K.
\<close>

theorem parse_money_spec_witness:
  "parse_money ascii_db (ascii ''$1_000.5K'') = Inr (Some (nearest_double 1000500 1))
   \<and> suffix_factor 77 \<noteq> None \<and> suffix_factor 75 \<noteq> None
   \<and> parse_money ascii_db (ascii ''$5KM'') = Inr None"
proof -
  have "ascii ''$1_000.5K'' \<noteq> []" by (simp add: ascii_def)
  with parse_money_spec [of ascii_db "ascii ''$1_000.5K''"]
  have "parse_money ascii_db (ascii ''$1_000.5K'') =
        spec_money ascii_db
          (strip ascii_db (filter (\<lambda>c. c \<noteq> 36 \<and> c \<noteq> 44 \<and> c \<noteq> EM_DASH) (ascii ''$1_000.5K'')))"
    by presburger
  also have "\<dots> = Inr (Some (nearest_double 1000500 1))"
    by (simp add: spec_money_def scaled_def suffix_factor_def parse_eval float_eval)
  finally have first: "parse_money ascii_db (ascii ''$1_000.5K'') = Inr (Some (nearest_double 1000500 1))" .
  have f: "suffix_factor 77 \<noteq> None" "suffix_factor 75 \<noteq> None"
    by (simp_all add: suffix_factor_def)
  have t: "strip ascii_db (filter (\<lambda>c. c \<noteq> 36 \<and> c \<noteq> 44 \<and> c \<noteq> EM_DASH) (ascii ''$5KM''))
           = [53] @ [75, 77]"
    by (simp add: strip_def isspace_def ascii_def EM_DASH_def)
  from parse_money_spec [of ascii_db "ascii ''$5KM''" 77 75 "[53]"] f t
  have "parse_money ascii_db (ascii ''$5KM'') = Inr None" by blast
  with first f show ?thesis by simp
qed

text \<open>
  Claim C2, as stated, fails: the claim strips a plus sign only where it leads the text,
  the code removes every plus sign. On \<open>1+2%\<close> the claim's reading leaves \<open>1+2\<close>, which is
  no numeral, and gives \<open>None\<close>; the code parses \<open>12\<close>.
\<close>

theorem parse_percent_inner_plus_counterexample:
  "parse_percent ascii_db (ascii ''1+2%'') = Inr (Some (nearest_double 12 1))
   \<and> spec_parse_percent ascii_db (ascii ''1+2%'') = Inr None"
  by (intro conjI percent_inner_plus spec_percent_inner_plus)

text \<open>
  Claim C2, amended. For every input string \<open>parse_percent\<close> never raises. It returns
  \<open>None\<close> on the empty string. Otherwise it removes every percent sign, every plus sign
  (wherever it stands) and every comma, so they do not change the result, keeps every
  minus sign, trims white space and parses what is left with \<open>float\<close>; it returns \<open>None\<close>
  when \<open>float\<close> rejects what is left. The three examples of the specification hold. A
  minus sign put before a text that starts, once the three characters are removed, with
  a digit or a point changes the sign of the result and nothing else.
\<close>

theorem parse_percent_amended:
  "(\<exists>r. parse_percent u text = Inr r)
   \<and> parse_percent u [] = Inr None
   \<and> parse_percent u text =
       (if text = [] then Inr None
        else (case py_float u (strip u (filter (\<lambda>c. c \<noteq> 37 \<and> c \<noteq> 43 \<and> c \<noteq> 44) text)) of
                Inr x \<Rightarrow> Inr (Some x)
              | Inl e \<Rightarrow> Inr None))
   \<and> parse_percent u (filter (\<lambda>c. c \<noteq> 37 \<and> c \<noteq> 43 \<and> c \<noteq> 44) text) = parse_percent u text
   \<and> parse_percent u (ascii ''+3.25%'') = Inr (Some (nearest_double 325 100))
   \<and> parse_percent u (ascii ''-1.5%'') = Inr (Some (nearest_double (- 15) 10))
   \<and> (filter (\<lambda>c. c \<noteq> 37 \<and> c \<noteq> 43 \<and> c \<noteq> 44) text = d # t \<and> numeral_start d
      \<longrightarrow> parse_percent u (45 # text) = negated (parse_percent u text))"
proof (intro conjI impI parse_percent_total parse_percent_eq parse_percent_ignores percent_3_25
        percent_minus)
  show "parse_percent u [] = Inr None" by (simp add: parse_percent_def)
next
  assume "filter (\<lambda>c. c \<noteq> 37 \<and> c \<noteq> 43 \<and> c \<noteq> 44) text = d # t \<and> numeral_start d"
  then show "parse_percent u (45 # text) = negated (parse_percent u text)"
    by (blast intro: parse_percent_minus)
qed

text \<open>The theorem at two inputs, one with a plus sign at the end, one with a minus sign in front.\<close>

theorem parse_percent_amended_witness:
  "parse_percent ascii_db (ascii ''-1,250.5+%'') = Inr (Some (nearest_double (- 12505) 10))
   \<and> numeral_start 49
   \<and> parse_percent ascii_db (45 # ascii ''1.5%'') = negated (parse_percent ascii_db (ascii ''1.5%''))"
proof -
  have "ascii ''-1,250.5+%'' \<noteq> []" by (simp add: ascii_def)
  with parse_percent_amended [of ascii_db "ascii ''-1,250.5+%''"]
  have "parse_percent ascii_db (ascii ''-1,250.5+%'') =
        (case py_float ascii_db
                (strip ascii_db (filter (\<lambda>c. c \<noteq> 37 \<and> c \<noteq> 43 \<and> c \<noteq> 44) (ascii ''-1,250.5+%''))) of
           Inr x \<Rightarrow> Inr (Some x)
         | Inl e \<Rightarrow> Inr None)"
    by presburger
  also have "\<dots> = Inr (Some (nearest_double (- 12505) 10))"
    by (simp add: parse_eval float_eval)
  finally have first:
    "parse_percent ascii_db (ascii ''-1,250.5+%'') = Inr (Some (nearest_double (- 12505) 10))" .
  have n: "numeral_start 49" by (simp add: numeral_start_def is_digit_def)
  have f: "filter (\<lambda>c. c \<noteq> 37 \<and> c \<noteq> 43 \<and> c \<noteq> 44) (ascii ''1.5%'') = 49 # [46, 53]"
    by (simp add: ascii_def)
  from parse_percent_amended [of ascii_db "ascii ''1.5%''" 49 "[46, 53]"] n f
  have "parse_percent ascii_db (45 # ascii ''1.5%'') = negated (parse_percent ascii_db (ascii ''1.5%''))"
    by blast
  with first n show ?thesis by simp
qed

section \<open>Properties of the sort and the filters\<close>

lemma fle_NaN [simp]: "\<not> fle a NaN" "\<not> fle NaN a"
  by (cases a; simp)+

lemma fle_scale:
  assumes "K \<le> e" "K \<le> f"
  shows "fle (Finite m e) (Finite n f) = (m * 2 ^ nat (e - K) \<le> n * 2 ^ nat (f - K))"
proof -
  define d where "d = min e f - K"
  have d: "0 \<le> d" using assms by (simp add: d_def)
  have e: "nat (e - K) = nat (e - min e f) + nat d" and f: "nat (f - K) = nat (f - min e f) + nat d"
    using assms by (simp_all add: d_def nat_add_distrib [symmetric])
  have "(m * 2 ^ nat (e - K) \<le> n * 2 ^ nat (f - K)) =
        ((m * 2 ^ nat (e - min e f)) * 2 ^ nat d \<le> (n * 2 ^ nat (f - min e f)) * 2 ^ nat d)"
    by (simp add: e f power_add mult.assoc)
  also have "\<dots> = (m * 2 ^ nat (e - min e f) \<le> n * 2 ^ nat (f - min e f))"
    by (rule mult_le_cancel_right_pos) simp
  finally show ?thesis by simp
qed

lemma fle_trans: "fle a b \<Longrightarrow> fle b c \<Longrightarrow> fle a c"
proof (cases a; cases b; cases c)
  fix m e n f p g
  assume abc: "a = Finite m e" "b = Finite n f" "c = Finite p g"
  assume ab: "fle a b" and bc: "fle b c"
  define K where "K = min e (min f g)"
  have K: "K \<le> e" "K \<le> f" "K \<le> g" by (simp_all add: K_def)
  from ab bc have "m * 2 ^ nat (e - K) \<le> n * 2 ^ nat (f - K)" "n * 2 ^ nat (f - K) \<le> p * 2 ^ nat (g - K)"
    unfolding abc by (simp_all only: fle_scale [OF K(1) K(2)] fle_scale [OF K(2) K(3)])
  then have "m * 2 ^ nat (e - K) \<le> p * 2 ^ nat (g - K)" by (rule order_trans)
  then show "fle a c" unfolding abc by (simp only: fle_scale [OF K(1) K(3)])
qed auto

lemma fle_total: "a \<noteq> NaN \<Longrightarrow> b \<noteq> NaN \<Longrightarrow> fle a b \<or> fle b a"
  by (cases a; cases b) (auto simp: min_def)

lemma valued_key: "\<not> isna (change_24h r) \<Longrightarrow> change_key r \<noteq> NaN"
  by (cases "change_24h r" rule: isna.cases) (auto simp: change_key_def)

lemma in_order_trans: "in_order asc a b \<Longrightarrow> in_order asc b c \<Longrightarrow> in_order asc a c"
  by (auto simp: in_order_def intro: fle_trans split: if_splits)

lemma in_order_total:
  "\<not> isna (change_24h a) \<Longrightarrow> \<not> isna (change_24h b) \<Longrightarrow> in_order asc a b \<or> in_order asc b a"
  using fle_total [OF valued_key valued_key, of a b] fle_total [OF valued_key valued_key, of b a]
  by (auto simp: in_order_def)

lemma mset_insert_row: "mset (insert_row asc r xs) = add_mset r (mset xs)"
  by (induction xs) auto

lemma set_insert_row: "set (insert_row asc r xs) = insert r (set xs)"
  by (induction xs) auto

lemma sorted_insert_row:
  assumes "\<not> isna (change_24h r)" "\<forall>x\<in>set xs. \<not> isna (change_24h x)"
    and "sorted_wrt (in_order asc) xs"
  shows "sorted_wrt (in_order asc) (insert_row asc r xs)"
  using assms
proof (induction xs)
  case Nil
  then show ?case by simp
next
  case (Cons x xs)
  show ?case
  proof (cases "in_order asc r x")
    case True
    with Cons.prems show ?thesis by (auto intro: in_order_trans)
  next
    case False
    with Cons.prems in_order_total [of x r asc] have "in_order asc x r" by auto
    with False Cons show ?thesis by (auto simp: set_insert_row)
  qed
qed

lemma insertion_sorted:
  "\<forall>x\<in>set xs. \<not> isna (change_24h x) \<Longrightarrow>
   sorted_wrt (in_order asc) (foldr (insert_row asc) xs [])
   \<and> mset (foldr (insert_row asc) xs []) = mset xs"
proof (induction xs)
  case Nil
  then show ?case by simp
next
  case (Cons x xs)
  then have ih: "sorted_wrt (in_order asc) (foldr (insert_row asc) xs [])"
    "mset (foldr (insert_row asc) xs []) = mset xs" by auto
  from ih(2) have "set (foldr (insert_row asc) xs []) = set xs" by (metis set_mset_mset)
  with Cons.prems ih show ?case by (simp add: sorted_insert_row mset_insert_row)
qed

lemma stable_sort_pandas: "pandas_sort stable_sort"
proof -
  have "sort_values_result asc df (stable_sort asc df)" for asc df
  proof -
    define valued where "valued = filter (\<lambda>r. \<not> isna (change_24h r)) df"
    have v: "\<forall>x\<in>set valued. \<not> isna (change_24h x)" by (simp add: valued_def)
    from insertion_sorted [OF v, of asc]
    have s: "sorted_wrt (in_order asc) (foldr (insert_row asc) valued [])"
      and m: "mset (foldr (insert_row asc) valued []) = mset valued" by auto
    from m have l: "length (foldr (insert_row asc) valued []) = length valued"
      by (metis size_mset)
    show ?thesis
      unfolding sort_values_result_def stable_sort_def valued_def [symmetric] Let_def
      using s m l by simp
  qed
  then show ?thesis by (simp add: pandas_sort_def)
qed

lemma sorted_shape:
  assumes "pandas_sort sv"
  shows "\<exists>body. mset body = mset (filter (\<lambda>r. \<not> isna (change_24h r)) df)
           \<and> sorted_wrt (in_order asc) body
           \<and> sv asc df = body @ filter (\<lambda>r. isna (change_24h r)) df"
proof -
  define n where "n = length (filter (\<lambda>r. \<not> isna (change_24h r)) df)"
  from assms have "sort_values_result asc df (sv asc df)" by (simp add: pandas_sort_def)
  then have m: "mset (take n (sv asc df)) = mset (filter (\<lambda>r. \<not> isna (change_24h r)) df)"
    and s: "sorted_wrt (in_order asc) (take n (sv asc df))"
    and d: "drop n (sv asc df) = filter (\<lambda>r. isna (change_24h r)) df"
    by (simp_all add: sort_values_result_def Let_def n_def)
  have "sv asc df = take n (sv asc df) @ drop n (sv asc df)" by simp
  with d have "sv asc df = take n (sv asc df) @ filter (\<lambda>r. isna (change_24h r)) df" by simp
  with m s show ?thesis by blast
qed

lemma top_rows_head:
  assumes "pandas_sort sv" "0 \<le> k"
  shows "top_rows asc df k (head (sv asc df) k)"
  using sorted_shape [OF assms(1), of df asc] assms(2)
  by (auto simp: top_rows_def head_def)

lemma top_rows_length:
  assumes "top_rows asc df k out"
  shows "length out = min (nat k) (length df)"
proof -
  from assms obtain body where
    m: "mset body = mset (filter (\<lambda>r. \<not> isna (change_24h r)) df)"
    and o: "out = take (nat k) (body @ filter (\<lambda>r. isna (change_24h r)) df)"
    by (auto simp: top_rows_def)
  from m have "length body = length (filter (\<lambda>r. \<not> isna (change_24h r)) df)"
    by (metis size_mset)
  then have "length (body @ filter (\<lambda>r. isna (change_24h r)) df) = length df"
    using sum_length_filter_compl [of "\<lambda>r. isna (change_24h r)" df] by simp
  with o show ?thesis by (simp add: min.commute)
qed

lemma top_rows_valued:
  assumes "top_rows asc df k out"
    and "nat k \<le> length (filter (\<lambda>r. \<not> isna (change_24h r)) df)"
  shows "\<forall>r\<in>set out. \<not> isna (change_24h r)"
proof -
  from assms(1) obtain body where
    m: "mset body = mset (filter (\<lambda>r. \<not> isna (change_24h r)) df)"
    and o: "out = take (nat k) (body @ filter (\<lambda>r. isna (change_24h r)) df)"
    by (auto simp: top_rows_def)
  from m have l: "length body = length (filter (\<lambda>r. \<not> isna (change_24h r)) df)"
    by (metis size_mset)
  from m have b: "set body = set (filter (\<lambda>r. \<not> isna (change_24h r)) df)"
    by (metis set_mset_mset)
  from o l assms(2) have "out = take (nat k) body" by simp
  then have "set out \<subseteq> set body" by (simp add: set_take_subset)
  with b show ?thesis by auto
qed

lemma top_rows_filled:
  assumes "top_rows asc df k out"
    and "length (filter (\<lambda>r. \<not> isna (change_24h r)) df) \<le> nat k"
  shows "filter (\<lambda>r. isna (change_24h r)) out
         = take (nat k - length (filter (\<lambda>r. \<not> isna (change_24h r)) df))
             (filter (\<lambda>r. isna (change_24h r)) df)"
proof -
  from assms(1) obtain body where
    m: "mset body = mset (filter (\<lambda>r. \<not> isna (change_24h r)) df)"
    and o: "out = take (nat k) (body @ filter (\<lambda>r. isna (change_24h r)) df)"
    by (auto simp: top_rows_def)
  from m have l: "length body = length (filter (\<lambda>r. \<not> isna (change_24h r)) df)"
    by (metis size_mset)
  from m have b: "set body = set (filter (\<lambda>r. \<not> isna (change_24h r)) df)"
    by (metis set_mset_mset)
  then have fb: "filter (\<lambda>r. isna (change_24h r)) body = []" by (auto simp: filter_empty_conv)
  have ft: "filter (\<lambda>r. isna (change_24h r)) (take j (filter (\<lambda>r. isna (change_24h r)) df))
            = take j (filter (\<lambda>r. isna (change_24h r)) df)" for j
    by (rule filter_True) (auto dest: in_set_takeD)
  from o l assms(2) show ?thesis by (simp add: fb ft)
qed

lemmas frame_eval =
  filter_top_gainers_def filter_top_losers_def head_def stable_sort_def coin_def in_order_def
  change_key_def

text \<open>On a frame of one row every sort that meets the contract returns that row.\<close>

lemma single_row: "pandas_sort sv \<Longrightarrow> sv asc [r] = [r]"
  using sorted_shape [of sv "[r]" asc] by (cases "isna (change_24h r)") auto

text \<open>
  Claim C3, as stated, fails: a frame whose only record has no change has no record with
  a non-null change, yet its top 1 has length 1.
\<close>

theorem top_gainers_length_counterexample:
  "length (filter_top_gainers stable_sort [coin ''A'' None None] 1) = 1
   \<and> min 1 (length (filter (\<lambda>r. \<not> isna (change_24h r)) [coin ''A'' None None])) = 0"
  by (simp add: frame_eval)

text \<open>
  Claim C3, amended. For every snapshot \<open>df\<close>, every \<open>k \<ge> 0\<close> and every result of the
  library's sort, \<open>filter_top_gainers\<close> returns the first \<open>k\<close> rows of an ordering of \<open>df\<close> in
  which the records with a change come first, in descending order of the change (the
  order among equal changes is the library's), and the records with a null change follow
  in their original order; \<open>filter_top_losers\<close> does the same with the ascending order.
  The length is \<open>min k (length df)\<close>. When at least \<open>k\<close> records have a change, no record
  with a null change is returned; when fewer have one, the records with a null change
  fill the remaining places in their original order.
\<close>

theorem top_movers_amended:
  assumes "pandas_sort sv" and "0 \<le> k"
  shows "top_rows False df k (filter_top_gainers sv df k)
       \<and> top_rows True df k (filter_top_losers sv df k)
       \<and> length (filter_top_gainers sv df k) = min (nat k) (length df)
       \<and> length (filter_top_losers sv df k) = min (nat k) (length df)
       \<and> (nat k \<le> length (filter (\<lambda>r. \<not> isna (change_24h r)) df) \<longrightarrow>
            (\<forall>r\<in>set (filter_top_gainers sv df k). \<not> isna (change_24h r))
            \<and> (\<forall>r\<in>set (filter_top_losers sv df k). \<not> isna (change_24h r)))
       \<and> (length (filter (\<lambda>r. \<not> isna (change_24h r)) df) \<le> nat k \<longrightarrow>
            filter (\<lambda>r. isna (change_24h r)) (filter_top_gainers sv df k)
              = take (nat k - length (filter (\<lambda>r. \<not> isna (change_24h r)) df))
                  (filter (\<lambda>r. isna (change_24h r)) df)
            \<and> filter (\<lambda>r. isna (change_24h r)) (filter_top_losers sv df k)
              = take (nat k - length (filter (\<lambda>r. \<not> isna (change_24h r)) df))
                  (filter (\<lambda>r. isna (change_24h r)) df))"
proof -
  have g: "top_rows False df k (filter_top_gainers sv df k)"
    and l: "top_rows True df k (filter_top_losers sv df k)"
    unfolding filter_top_gainers_def filter_top_losers_def
    by (rule top_rows_head [OF assms])+
  show ?thesis
    using g l top_rows_length [OF g] top_rows_length [OF l] top_rows_valued [OF g]
      top_rows_valued [OF l] top_rows_filled [OF g] top_rows_filled [OF l]
    by blast
qed

text \<open>
  The theorem at one input: three records, the second without a change, and \<open>k = 2\<close>,
  sorted by the stable sort. The two records with a change are returned, the larger
  change first among the gainers and last among the losers.
\<close>

theorem top_movers_amended_witness:
  "pandas_sort stable_sort \<and> (0::int) \<le> 2
   \<and> top_rows False
        [coin ''A'' None (Some (Finite 3 (- 1))), coin ''B'' None None,
         coin ''C'' None (Some (Finite 3 0))] 2
        [coin ''C'' None (Some (Finite 3 0)), coin ''A'' None (Some (Finite 3 (- 1)))]
   \<and> top_rows True
        [coin ''A'' None (Some (Finite 3 (- 1))), coin ''B'' None None,
         coin ''C'' None (Some (Finite 3 0))] 2
        [coin ''A'' None (Some (Finite 3 (- 1))), coin ''C'' None (Some (Finite 3 0))]
   \<and> length (filter_top_losers stable_sort
        [coin ''A'' None (Some (Finite 3 (- 1))), coin ''B'' None None,
         coin ''C'' None (Some (Finite 3 0))] 2) = 2"
  using top_movers_amended [OF stable_sort_pandas, of 2
     "[coin ''A'' None (Some (Finite 3 (- 1))), coin ''B'' None None,
       coin ''C'' None (Some (Finite 3 0))]"]
  by (simp add: stable_sort_pandas frame_eval)

lemma within_not_null: "lo \<noteq> None \<or> hi \<noteq> None \<Longrightarrow> within_bounds lo hi cell \<Longrightarrow> \<not> isna cell"
  by (cases cell rule: isna.cases; cases lo; cases hi) (auto simp: within_bounds_def)

lemma filter_by_price_unbounded: "filter_by_price df None None = df"
  by (simp add: filter_by_price_def)

lemma filter_by_price_eq:
  "lo \<noteq> None \<or> hi \<noteq> None \<Longrightarrow>
   filter_by_price df lo hi = filter (\<lambda>r. within_bounds lo hi (price r)) df"
  by (cases lo; cases hi)
     (auto simp: filter_by_price_def within_bounds_def price_ge_def price_le_def
           intro!: filter_cong split: option.splits)

lemma filter_by_price_keeps:
  "r \<in> set df \<Longrightarrow> within_bounds lo hi (price r) \<Longrightarrow> r \<in> set (filter_by_price df lo hi)"
  by (cases lo; cases hi)
     (auto simp: filter_by_price_def within_bounds_def price_ge_def price_le_def split: option.splits)

lemma filter_by_price_members:
  "lo \<noteq> None \<or> hi \<noteq> None \<Longrightarrow>
   \<forall>r\<in>set (filter_by_price df lo hi). \<not> isna (price r) \<and> within_bounds lo hi (price r)"
  using within_not_null [of lo hi] by (auto simp: filter_by_price_eq)

lemma filter_by_price_drops:
  "lo \<noteq> None \<or> hi \<noteq> None \<Longrightarrow>
   \<forall>r\<in>set df. isna (price r) \<or> \<not> within_bounds lo hi (price r)
                  \<longrightarrow> r \<notin> set (filter_by_price df lo hi)"
  using filter_by_price_members [of lo hi df] by blast

text \<open>
  Claim C4. With no bound \<open>filter_by_price\<close> returns the frame as it is. With at least one
  bound it returns exactly the records, in their order, whose price is not null and lies
  within the bounds given, the bounds included and a missing bound leaving its side
  open: every record returned has such a price, and every record with a null price or a
  price outside the bounds is left out. In every case a record whose price lies within
  the bounds is returned.
\<close>

theorem filter_by_price_spec:
  "filter_by_price df None None = df
   \<and> (lo \<noteq> None \<or> hi \<noteq> None \<longrightarrow>
        filter_by_price df lo hi = filter (\<lambda>r. within_bounds lo hi (price r)) df
        \<and> (\<forall>r\<in>set (filter_by_price df lo hi). \<not> isna (price r) \<and> within_bounds lo hi (price r))
        \<and> (\<forall>r\<in>set df. isna (price r) \<or> \<not> within_bounds lo hi (price r)
                            \<longrightarrow> r \<notin> set (filter_by_price df lo hi)))
   \<and> (\<forall>r\<in>set df. within_bounds lo hi (price r) \<longrightarrow> r \<in> set (filter_by_price df lo hi))
   \<and> within_bounds lo hi (Some p) =
        ((case lo of None \<Rightarrow> True | Some m \<Rightarrow> fle m p) \<and> (case hi of None \<Rightarrow> True | Some m \<Rightarrow> fle p m))
   \<and> \<not> within_bounds lo hi None"
proof (intro conjI impI ballI)
  show "filter_by_price df None None = df" by (rule filter_by_price_unbounded)
next
  assume "lo \<noteq> None \<or> hi \<noteq> None"
  then show "filter_by_price df lo hi = filter (\<lambda>r. within_bounds lo hi (price r)) df"
    by (rule filter_by_price_eq)
next
  fix r assume "lo \<noteq> None \<or> hi \<noteq> None" "r \<in> set (filter_by_price df lo hi)"
  then show "\<not> isna (price r)" using filter_by_price_members by blast
next
  fix r assume "lo \<noteq> None \<or> hi \<noteq> None" "r \<in> set (filter_by_price df lo hi)"
  then show "within_bounds lo hi (price r)" using filter_by_price_members by blast
next
  fix r assume "lo \<noteq> None \<or> hi \<noteq> None" "r \<in> set df"
    "isna (price r) \<or> \<not> within_bounds lo hi (price r)"
  then show "r \<notin> set (filter_by_price df lo hi)" using filter_by_price_drops by blast
next
  fix r assume "r \<in> set df" "within_bounds lo hi (price r)"
  then show "r \<in> set (filter_by_price df lo hi)" by (rule filter_by_price_keeps)
next
  show "within_bounds lo hi (Some p) =
        ((case lo of None \<Rightarrow> True | Some m \<Rightarrow> fle m p) \<and> (case hi of None \<Rightarrow> True | Some m \<Rightarrow> fle p m))"
    by (simp add: within_bounds_def)
next
  show "\<not> within_bounds lo hi None" by (simp add: within_bounds_def)
qed

text \<open>
  The theorem at one input: bounds 1 and 10 on prices 5, null, 50, 10 and NaN keep the
  first and the fourth record.
\<close>

theorem filter_by_price_spec_witness:
  "Some (Finite 1 0) \<noteq> (None :: pyfloat option)
   \<and> filter_by_price
        [coin ''A'' (Some (Finite 5 0)) None, coin ''B'' None None,
         coin ''C'' (Some (Finite 25 1)) None, coin ''D'' (Some (Finite 5 1)) None,
         coin ''E'' (Some NaN) None]
        (Some (Finite 1 0)) (Some (Finite 5 1))
      = [coin ''A'' (Some (Finite 5 0)) None, coin ''D'' (Some (Finite 5 1)) None]"
proof -
  have b: "Some (Finite 1 0) \<noteq> (None :: pyfloat option) \<or> Some (Finite 5 1) \<noteq> (None :: pyfloat option)"
    by simp
  with filter_by_price_spec [of
        "[coin ''A'' (Some (Finite 5 0)) None, coin ''B'' None None,
          coin ''C'' (Some (Finite 25 1)) None, coin ''D'' (Some (Finite 5 1)) None,
          coin ''E'' (Some NaN) None]"
        "Some (Finite 1 0)" "Some (Finite 5 1)"]
  have "filter_by_price
        [coin ''A'' (Some (Finite 5 0)) None, coin ''B'' None None,
         coin ''C'' (Some (Finite 25 1)) None, coin ''D'' (Some (Finite 5 1)) None,
         coin ''E'' (Some NaN) None]
        (Some (Finite 1 0)) (Some (Finite 5 1))
      = filter (\<lambda>r. within_bounds (Some (Finite 1 0)) (Some (Finite 5 1)) (price r))
        [coin ''A'' (Some (Finite 5 0)) None, coin ''B'' None None,
         coin ''C'' (Some (Finite 25 1)) None, coin ''D'' (Some (Finite 5 1)) None,
         coin ''E'' (Some NaN) None]"
    by blast
  also have "\<dots> = [coin ''A'' (Some (Finite 5 0)) None, coin ''D'' (Some (Finite 5 1)) None]"
    by (simp add: coin_def within_bounds_def)
  finally show ?thesis by simp
qed

section \<open>Properties of the CSV log\<close>

lemma save_empty: "save_to_csv [] path now fs = fs"
  by (simp add: save_to_csv_def)

lemma save_rows:
  "records \<noteq> [] \<Longrightarrow>
   save_to_csv records path now fs path =
     Some ((case fs path of None \<Rightarrow> [Header csv_columns] | Some old \<Rightarrow> old)
             @ map (\<lambda>r. DataRow r now) records)"
  by (simp add: save_to_csv_def Let_def split: option.splits)

lemma save_other:
  "p \<noteq> path \<Longrightarrow> save_to_csv records path now fs p = fs p"
  by (simp add: save_to_csv_def Let_def)

lemma save_twice:
  "records \<noteq> [] \<Longrightarrow> batch \<noteq> [] \<Longrightarrow>
   save_to_csv batch path later (save_to_csv records path now fs) path =
     Some ((case fs path of None \<Rightarrow> [Header csv_columns] | Some old \<Rightarrow> old)
             @ map (\<lambda>r. DataRow r now) records @ map (\<lambda>r. DataRow r later) batch)"
  by (simp add: save_rows)

text \<open>
  Claim C5. \<open>save_to_csv\<close> leaves the file system as it is when there are no records.
  Otherwise the file at the path consists of its former lines, if it existed, or of the
  header line, if it did not, followed by one row for each record, all with the one
  time stamp of the call; no other file changes. Whether the header is written depends
  only on the file system at the time of the call: on a path without a file the header
  is written, on a path with a file it is not, so that a second batch appended after a
  first adds its rows and no second header.
\<close>

theorem save_to_csv_spec:
  "save_to_csv [] path now fs = fs
   \<and> (records \<noteq> [] \<longrightarrow>
        save_to_csv records path now fs path =
          Some ((case fs path of None \<Rightarrow> [Header csv_columns] | Some old \<Rightarrow> old)
                  @ map (\<lambda>r. DataRow r now) records)
        \<and> save_to_csv records path now (fs(path := None)) path =
            Some (Header csv_columns # map (\<lambda>r. DataRow r now) records)
        \<and> save_to_csv records path now (fs(path \<mapsto> old)) path =
            Some (old @ map (\<lambda>r. DataRow r now) records)
        \<and> (\<forall>batch later. batch \<noteq> [] \<longrightarrow>
             save_to_csv batch path later (save_to_csv records path now fs) path =
               Some ((case fs path of None \<Rightarrow> [Header csv_columns] | Some old \<Rightarrow> old)
                       @ map (\<lambda>r. DataRow r now) records @ map (\<lambda>r. DataRow r later) batch)))
   \<and> (\<forall>p. p \<noteq> path \<longrightarrow> save_to_csv records path now fs p = fs p)"
  by (simp add: save_empty save_rows save_other save_twice)

text \<open>The theorem at one input: two batches of one record, appended to a new file.\<close>

theorem save_to_csv_spec_witness:
  "[coin ''A'' None None] \<noteq> []
   \<and> save_to_csv [coin ''A'' None None] (ascii ''crypto_prices.csv'') (ascii ''2024-01-01T00:00:00+00:00'')
        Map.empty (ascii ''crypto_prices.csv'')
      = Some [Header csv_columns, DataRow (coin ''A'' None None) (ascii ''2024-01-01T00:00:00+00:00'')]
   \<and> [coin ''B'' None None] \<noteq> []
   \<and> save_to_csv [coin ''B'' None None] (ascii ''crypto_prices.csv'') (ascii ''2024-01-01T00:00:10+00:00'')
        (save_to_csv [coin ''A'' None None] (ascii ''crypto_prices.csv'') (ascii ''2024-01-01T00:00:00+00:00'')
           Map.empty) (ascii ''crypto_prices.csv'')
      = Some [Header csv_columns, DataRow (coin ''A'' None None) (ascii ''2024-01-01T00:00:00+00:00''),
              DataRow (coin ''B'' None None) (ascii ''2024-01-01T00:00:10+00:00'')]
   \<and> ascii ''other.csv'' \<noteq> ascii ''crypto_prices.csv''
   \<and> save_to_csv [coin ''A'' None None] (ascii ''crypto_prices.csv'') (ascii ''2024-01-01T00:00:00+00:00'')
        Map.empty (ascii ''other.csv'') = None"
  using save_to_csv_spec [of "ascii ''crypto_prices.csv''" "ascii ''2024-01-01T00:00:00+00:00''"
          Map.empty "[coin ''A'' None None]" "[]"]
  by (simp add: ascii_def)

section \<open>Properties of the scraper and the main loop\<close>

lemma extract_bitcoin: "extract_row u bitcoin_row = Inr (Some bitcoin)"
  by (simp add: extract_row_def bitcoin_row_def bitcoin_def stripped_text_def then_do_def
        parse_eval float_eval)

lemma row_raises:
  "extract_row u row = Inl e \<Longrightarrow> row_records u row = [] \<and> row_warnings u i row = [RowWarning i e]"
  by (simp add: row_records_def row_warnings_def)

lemma row_skipped:
  "extract_row u row = Inr None \<Longrightarrow> row_records u row = [] \<and> row_warnings u i row = []"
  by (simp add: row_records_def row_warnings_def)

lemma row_extracted:
  "extract_row u row = Inr (Some r) \<Longrightarrow> row_records u row = [r] \<and> row_warnings u i row = []"
  by (simp add: row_records_def row_warnings_def)

lemma scrape_rows_eq:
  "\<forall>row\<in>set rows. catchable u row \<Longrightarrow>
   scrape_rows u i rows = (Inr (concat (map (row_records u) rows)), warnings_from u i rows)"
proof (induction rows arbitrary: i)
  case Nil
  then show ?case by simp
next
  case (Cons row rows)
  then have ih: "scrape_rows u (Suc i) rows =
      (Inr (concat (map (row_records u) rows)), warnings_from u (Suc i) rows)"
    and c: "catchable u row" by simp_all
  show ?case
  proof (cases "extract_row u row")
    case (Inl e)
    with c have "is_Exception e" by (simp add: catchable_def)
    with Inl ih row_raises [OF Inl, of i] show ?thesis by simp
  next
    case (Inr x)
    show ?thesis
    proof (cases x)
      case None
      with Inr ih row_skipped [of u row i] show ?thesis by simp
    next
      case (Some r)
      with Inr ih row_extracted [of u row r i] show ?thesis by simp
    qed
  qed
qed

lemma row_warnings_mem:
  "RowWarning j e \<in> set (row_warnings u i row) \<longleftrightarrow> j = i \<and> extract_row u row = Inl e"
  by (auto simp: row_warnings_def split: sum.splits)

lemma warnings_from_mem:
  "RowWarning j e \<in> set (warnings_from u i rows) \<longleftrightarrow>
   i \<le> j \<and> j - i < length rows \<and> extract_row u (rows ! (j - i)) = Inl e"
proof (induction rows arbitrary: i)
  case Nil
  then show ?case by simp
next
  case (Cons row rows)
  have ih: "RowWarning j e \<in> set (warnings_from u (Suc i) rows) \<longleftrightarrow>
      Suc i \<le> j \<and> j - Suc i < length rows \<and> extract_row u (rows ! (j - Suc i)) = Inl e"
    by (rule Cons.IH)
  consider "j < i" | "j = i" | "i < j" by linarith
  then show ?case
  proof cases
    case 1
    with ih show ?thesis by (simp add: row_warnings_mem)
  next
    case 2
    with ih show ?thesis by (simp add: row_warnings_mem)
  next
    case 3
    then have "j - i = Suc (j - Suc i)" by simp
    with 3 ih show ?thesis by (auto simp: row_warnings_mem)
  qed
qed

lemma short_row: "length cols < 8 \<Longrightarrow> extract_row u (Row cols) = Inr None"
  by (simp add: extract_row_def)

lemma slice_to_prefix: "\<exists>rest. rows = slice_to rows n @ rest"
  by (metis append_take_drop_id slice_to_def)

lemma scrape_timeout:
  "wait_ready pg = Inl TimeoutException \<Longrightarrow>
   scrape_top_n u pg n w =
     (Inr [], w\<lparr>screenshots := screenshots w @ [ascii ''debug_timeout.png''],
                stdout := stdout w @ [TimeoutNotice]\<rparr>)"
  by (simp add: scrape_top_n_def)

lemma not_ready:
  "refresh_raises pg = None \<Longrightarrow> \<not> (row_present pg \<and> price_has_dollar pg) \<Longrightarrow>
   wait_ready pg = Inl TimeoutException"
  by (auto simp: wait_ready_def)

lemma cycle_timeout:
  "wait_ready (driver c) = Inl TimeoutException \<Longrightarrow>
   cycle_body u sv a c w =
     (None, w\<lparr>screenshots := screenshots w @ [ascii ''debug_timeout.png''],
              stdout := stdout w @ [TimeoutNotice, NoData]\<rparr>)"
  by (simp add: cycle_body_def scrape_timeout)

lemma loop_step:
  "cycle_body u sv a c w = (None, w1) \<Longrightarrow> 0 \<le> interval a \<Longrightarrow> \<not> sleep_interrupted c \<Longrightarrow>
   loop u sv a (c # cs) w = loop u sv a cs (w1\<lparr>stdout := stdout w1 @ [Waiting (interval a)]\<rparr>)"
  by (simp add: sleep_def)

lemma loop_interrupt:
  "cycle_body u sv a c w = (None, w1) \<Longrightarrow> 0 \<le> interval a \<Longrightarrow> sleep_interrupted c \<Longrightarrow>
   loop u sv a (c # cs) w = (Broke, w1\<lparr>stdout := stdout w1 @ [Waiting (interval a), Stopped]\<rparr>)"
  by (simp add: sleep_def)

lemma loop_append:
  "loop u sv a pre w = (Running, w1) \<Longrightarrow> loop u sv a (pre @ cs) w = loop u sv a cs w1"
proof (induction pre arbitrary: w)
  case Nil
  then show ?case by simp
next
  case (Cons c pre)
  then show ?case
    by (auto split: prod.splits option.splits sum.splits if_splits)
qed

lemma scrape_quit: "quit_calls (snd (scrape_top_n u pg n w)) = quit_calls w"
  by (simp add: scrape_top_n_def split: sum.splits prod.splits)

lemma cycle_quit: "quit_calls (snd (cycle_body u sv a c w)) = quit_calls w"
  using scrape_quit [of u "driver c" "topn a" w]
  by (auto simp: cycle_body_def split: sum.splits prod.splits)

lemma loop_quit: "quit_calls (snd (loop u sv a cs w)) = quit_calls w"
proof (induction cs arbitrary: w)
  case Nil
  then show ?case by simp
next
  case (Cons c cs)
  show ?case
    using cycle_quit [of u sv a c w] Cons.IH
    by (auto split: prod.splits option.splits sum.splits)
qed

lemma scrape_launched: "launched (snd (scrape_top_n u pg n w)) = launched w"
  by (simp add: scrape_top_n_def split: sum.splits prod.splits)

lemma cycle_launched: "launched (snd (cycle_body u sv a c w)) = launched w"
  using scrape_launched [of u "driver c" "topn a" w]
  by (auto simp: cycle_body_def split: sum.splits prod.splits)

lemma loop_launched: "launched (snd (loop u sv a cs w)) = launched w"
proof (induction cs arbitrary: w)
  case Nil
  then show ?case by simp
next
  case (Cons c cs)
  show ?case
    using cycle_launched [of u sv a c w] Cons.IH
    by (auto split: prod.splits option.splits sum.splits)
qed

lemma main_released:
  assumes "fst (main u sv a Acquired cs w) \<noteq> StillRunning"
  shows "launched (snd (main u sv a Acquired cs w)) = launched w + 1"
    and "quit_calls (snd (main u sv a Acquired cs w)) = quit_calls w + 1"
  using assms
    loop_quit [of u sv a cs "(w\<lparr>launched := Suc (launched w)\<rparr>)\<lparr>stdout := stdout w @ [BrowserReady]\<rparr>"]
    loop_launched [of u sv a cs "(w\<lparr>launched := Suc (launched w)\<rparr>)\<lparr>stdout := stdout w @ [BrowserReady]\<rparr>"]
  by (auto simp: main_def build_driver_def quit_def split: prod.splits loop_exit.splits)

lemma scrape_files: "files (snd (scrape_top_n u pg n w)) = files w"
  by (simp add: scrape_top_n_def split: sum.splits prod.splits)

lemma cycle_contains:
  assumes "fst (scrape_top_n u (driver c) (topn a) w) = Inl e" "is_Exception e"
  shows "cycle_body u sv a c w =
           (None, (snd (scrape_top_n u (driver c) (topn a) w))
                    \<lparr>stdout := stdout (snd (scrape_top_n u (driver c) (topn a) w)) @ [ScrapeError e]\<rparr>)"
  using assms by (cases "scrape_top_n u (driver c) (topn a) w") (simp add: cycle_body_def)

lemma refresh_error:
  "refresh_raises pg = Some e \<Longrightarrow> e \<noteq> TimeoutException \<Longrightarrow> scrape_top_n u pg n w = (Inl e, w)"
  by (simp add: scrape_top_n_def wait_ready_def)

lemma main_acquire_fails:
  assumes "is_WebDriverException e" "acq = InstallFails e \<or> acq = LaunchFails e \<or> acq = GetFails e"
  shows "fst (main u sv a acq cs w) = Returned"
    and "stdout (snd (main u sv a acq cs w)) = stdout w @ [WebDriverError e]"
    and "files (snd (main u sv a acq cs w)) = files w"
  using assms by (auto simp: main_def build_driver_def)

lemma main_nothing_launched:
  assumes "acq = InstallFails e \<or> acq = LaunchFails e"
  shows "launched (snd (main u sv a acq cs w)) = launched w"
    and "quit_calls (snd (main u sv a acq cs w)) = quit_calls w"
  using assms by (auto simp: main_def build_driver_def)

text \<open>
  Claim C6. When the refresh does not raise and one of the two waits is not satisfied
  within the timeout, \<open>scrape_top_n\<close> saves the screenshot \<open>debug_timeout.png\<close>, prints the
  notice and returns the empty list. The cycle of the main loop then prints that no data
  was found, raises nothing and leaves every file as it was; and unless the sleep is
  interrupted the loop goes on with the next cycle.
\<close>

theorem timeout_cycle_contained:
  assumes "refresh_raises (driver c) = None"
    and "\<not> (row_present (driver c) \<and> price_has_dollar (driver c))"
  shows "scrape_top_n u (driver c) (topn a) w =
           (Inr [], w\<lparr>screenshots := screenshots w @ [ascii ''debug_timeout.png''],
                      stdout := stdout w @ [TimeoutNotice]\<rparr>)
       \<and> cycle_body u sv a c w =
           (None, w\<lparr>screenshots := screenshots w @ [ascii ''debug_timeout.png''],
                    stdout := stdout w @ [TimeoutNotice, NoData]\<rparr>)
       \<and> files (snd (cycle_body u sv a c w)) = files w
       \<and> (0 \<le> interval a \<and> \<not> sleep_interrupted c \<longrightarrow>
            loop u sv a (c # cs) w =
              loop u sv a cs
                (w\<lparr>screenshots := screenshots w @ [ascii ''debug_timeout.png''],
                   stdout := stdout w @ [TimeoutNotice, NoData, Waiting (interval a)]\<rparr>))"
proof -
  have t: "wait_ready (driver c) = Inl TimeoutException" using assms by (rule not_ready)
  show ?thesis
    using scrape_timeout [OF t, of u "topn a" w] cycle_timeout [OF t, of u sv a w]
    by (simp add: sleep_def)
qed

lemma timed_out_not_ready:
  "refresh_raises (driver timed_out) = None"
  "\<not> (row_present (driver timed_out) \<and> price_has_dollar (driver timed_out))"
  "\<not> sleep_interrupted timed_out"
  by (simp_all add: timed_out_def)

text \<open>The theorem at one input: a cycle in which the price cell never shows a dollar sign.\<close>

theorem timeout_cycle_contained_witness:
  "refresh_raises (driver timed_out) = None
   \<and> \<not> (row_present (driver timed_out) \<and> price_has_dollar (driver timed_out))
   \<and> (0 \<le> interval default_args \<and> \<not> sleep_interrupted timed_out)
   \<and> loop ascii_db stable_sort default_args [timed_out] empty_world =
       (Running, empty_world\<lparr>screenshots := [ascii ''debug_timeout.png''],
                             stdout := [TimeoutNotice, NoData, Waiting 10]\<rparr>)"
proof -
  have h: "0 \<le> interval default_args \<and> \<not> sleep_interrupted timed_out"
    by (simp add: default_args_def timed_out_def)
  from timeout_cycle_contained [OF timed_out_not_ready(1,2), of ascii_db default_args empty_world
          stable_sort "[]"] h
  have "loop ascii_db stable_sort default_args [timed_out] empty_world =
        loop ascii_db stable_sort default_args []
          (empty_world\<lparr>screenshots := screenshots empty_world @ [ascii ''debug_timeout.png''],
             stdout := stdout empty_world @ [TimeoutNotice, NoData, Waiting (interval default_args)]\<rparr>)"
    by blast
  then show ?thesis
    using h by (simp add: timed_out_not_ready default_args_def empty_world_def)
qed

lemma scrape_loaded:
  assumes "wait_ready pg = Inr ()" "table_rows pg = Inr rows"
    and "\<forall>row\<in>set (slice_to rows n). catchable u row"
  shows "scrape_top_n u pg n w =
           (Inr (concat (map (row_records u) (slice_to rows n))),
            w\<lparr>stdout := stdout w @ warnings_from u 0 (slice_to rows n)\<rparr>)"
  using assms(1,2) scrape_rows_eq [OF assms(3), of 0]
  by (simp add: scrape_top_n_def)

lemma slice_to_take: "0 \<le> n \<Longrightarrow> slice_to rows n = take (nat n) rows"
  by (simp add: slice_to_def)

text \<open>
  Claim C7. When the page is ready and the rows are found, and no row raises anything
  that does not derive from \<open>Exception\<close>, \<open>scrape_top_n\<close> returns, in the order of the page,
  the records of the rows \<open>rows[:n]\<close>, each row contributing on its own: a row with fewer
  than 8 cells contributes no record and no output, a row whose extraction raises
  contributes no record and the warning with its index, and every other row its record.
  For \<open>n \<ge> 0\<close> the rows processed are the first \<open>n\<close>; in every case they are a prefix of the
  rows. A warning with index \<open>j\<close> is printed exactly when the extraction of row \<open>j\<close> raised.
\<close>

theorem scrape_rows_independent:
  assumes "wait_ready pg = Inr ()" and "table_rows pg = Inr rows"
    and "\<forall>row\<in>set (slice_to rows n). catchable u row"
  shows "scrape_top_n u pg n w =
           (Inr (concat (map (row_records u) (slice_to rows n))),
            w\<lparr>stdout := stdout w @ warnings_from u 0 (slice_to rows n)\<rparr>)
       \<and> (0 \<le> n \<longrightarrow> slice_to rows n = take (nat n) rows)
       \<and> (\<exists>rest. rows = slice_to rows n @ rest)
       \<and> (\<forall>cols i. length cols < 8 \<longrightarrow>
             row_records u (Row cols) = [] \<and> row_warnings u i (Row cols) = [])
       \<and> (\<forall>row e i. extract_row u row = Inl e \<longrightarrow>
             row_records u row = [] \<and> row_warnings u i row = [RowWarning i e])
       \<and> (\<forall>j e. RowWarning j e \<in> set (warnings_from u 0 (slice_to rows n)) \<longleftrightarrow>
             j < length (slice_to rows n) \<and> extract_row u (slice_to rows n ! j) = Inl e)"
proof (intro conjI allI impI)
  show "scrape_top_n u pg n w =
           (Inr (concat (map (row_records u) (slice_to rows n))),
            w\<lparr>stdout := stdout w @ warnings_from u 0 (slice_to rows n)\<rparr>)"
    using assms by (rule scrape_loaded)
next
  assume "0 \<le> n" then show "slice_to rows n = take (nat n) rows" by (rule slice_to_take)
next
  show "\<exists>rest. rows = slice_to rows n @ rest" by (rule slice_to_prefix)
next
  fix cols :: "cell list" and i assume "length cols < 8"
  then have "extract_row u (Row cols) = Inr None" by (rule short_row)
  then show "row_records u (Row cols) = []" "row_warnings u i (Row cols) = []"
    using row_skipped by blast+
next
  fix row e i assume "extract_row u row = Inl e"
  then show "row_records u row = []" "row_warnings u i row = [RowWarning i e]"
    using row_raises by blast+
next
  fix j e
  show "RowWarning j e \<in> set (warnings_from u 0 (slice_to rows n)) \<longleftrightarrow>
          j < length (slice_to rows n) \<and> extract_row u (slice_to rows n ! j) = Inl e"
    by (simp add: warnings_from_mem)
qed

lemma extract_raises: "extract_row u (RowRaises e) = Inl e"
  by (simp add: extract_row_def)

lemma sample_rows:
  "row_records u bitcoin_row = [bitcoin]" "row_warnings u i bitcoin_row = []"
  "row_records u (Row []) = []" "row_warnings u i (Row []) = []"
  "row_records u (RowRaises e) = []" "row_warnings u i (RowRaises e) = [RowWarning i e]"
  "catchable u bitcoin_row" "catchable u (Row [])"
  "catchable u (RowRaises StaleElementReferenceException)"
  by (simp_all add: row_records_def row_warnings_def catchable_def extract_bitcoin
        extract_raises short_row)

text \<open>
  The theorem at one input: five rows, the second with no cells and the third stale,
  and \<open>n = 4\<close>.
\<close>

theorem scrape_rows_independent_witness:
  "wait_ready (driver (loaded [bitcoin_row, Row [], RowRaises StaleElementReferenceException, bitcoin_row, bitcoin_row] False)) = Inr ()
   \<and> catchable ascii_db bitcoin_row \<and> catchable ascii_db (Row [])
   \<and> catchable ascii_db (RowRaises StaleElementReferenceException)
   \<and> (0::int) \<le> 4
   \<and> length ([] :: cell list) < 8
   \<and> extract_row ascii_db (RowRaises StaleElementReferenceException) = Inl StaleElementReferenceException
   \<and> scrape_top_n ascii_db
        (driver (loaded [bitcoin_row, Row [], RowRaises StaleElementReferenceException, bitcoin_row, bitcoin_row] False))
        4 empty_world
      = (Inr [bitcoin, bitcoin], empty_world\<lparr>stdout := [RowWarning 2 StaleElementReferenceException]\<rparr>)"
proof -
  have r: "wait_ready (driver (loaded rs False)) = Inr ()"
    "table_rows (driver (loaded rs False)) = Inr rs" for rs
    by (simp_all add: loaded_def wait_ready_def)
  have c: "\<forall>row\<in>set (slice_to [bitcoin_row, Row [], RowRaises StaleElementReferenceException, bitcoin_row, bitcoin_row] 4).
         catchable ascii_db row"
    by (simp add: slice_to_def sample_rows)
  from scrape_rows_independent [OF r c, of empty_world]
  have "scrape_top_n ascii_db
        (driver (loaded [bitcoin_row, Row [], RowRaises StaleElementReferenceException, bitcoin_row, bitcoin_row] False))
        4 empty_world
      = (Inr (concat (map (row_records ascii_db) (slice_to [bitcoin_row, Row [], RowRaises StaleElementReferenceException, bitcoin_row, bitcoin_row] 4))),
            empty_world\<lparr>stdout := stdout empty_world @ warnings_from ascii_db 0 (slice_to [bitcoin_row, Row [], RowRaises StaleElementReferenceException, bitcoin_row, bitcoin_row] 4)\<rparr>)"
    by blast
  then show ?thesis
    using r by (simp add: slice_to_def sample_rows extract_raises empty_world_def)
qed

lemma cycle_files_on_error:
  assumes "fst (scrape_top_n u (driver c) (topn a) w) = Inl e" "is_Exception e"
  shows "files (snd (cycle_body u sv a c w)) = files w"
  using cycle_contains [OF assms, of sv] scrape_files [of u "driver c" "topn a" w] by simp

lemma crashed_cycle:
  "refresh_raises (driver crashed) = Some WebDriverException" "\<not> sleep_interrupted crashed"
  by (simp_all add: crashed_def)

lemma scrape_bitcoin:
  "scrape_top_n u (driver (loaded [bitcoin_row] i)) 10 w = (Inr [bitcoin], w\<lparr>stdout := stdout w\<rparr>)"
  by (simp add: scrape_top_n_def wait_ready_def loaded_def slice_to_def extract_bitcoin)

lemma movers_bitcoin:
  "filter_top_gainers stable_sort [bitcoin] 5 = [bitcoin]"
  "filter_top_losers stable_sort [bitcoin] 5 = [bitcoin]"
  by (simp_all add: filter_top_gainers_def filter_top_losers_def head_def stable_sort_def
        bitcoin_def example_doubles)

lemma default_fields:
  "topn default_args = 10" "interval default_args = 10"
  "output_file default_args = ascii ''crypto_prices.csv''"
  "show_gainers default_args = 5" "show_losers default_args = 5"
  "min_price default_args = None" "max_price default_args = None"
  by (simp_all add: default_args_def)

lemma loaded_fields:
  "clock (loaded rows i) = ascii ''2024-01-01T00:00:00+00:00''"
  "sleep_interrupted (loaded rows i) = i"
  by (simp_all add: loaded_def)

lemma cycle_bitcoin:
  "cycle_body u stable_sort default_args (loaded [bitcoin_row] i) w =
     (None, w\<lparr>files := save_to_csv [bitcoin] (ascii ''crypto_prices.csv'')
                          (ascii ''2024-01-01T00:00:00+00:00'') (files w),
              stdout := stdout w @ [Snapshot [bitcoin], GainersView 5 [bitcoin],
                                    LosersView 5 [bitcoin]]\<rparr>)"
  by (simp add: cycle_body_def scrape_bitcoin price_view_def gainers_view_def losers_view_def
        movers_bitcoin default_fields loaded_fields)

text \<open>
  Claim C8, as stated, fails: the browser raises a \<open>WebDriverException\<close> in the first cycle,
  and the loop neither ends nor quits the driver. It prints the error, sleeps, and in the
  second cycle scrapes and saves a record.
\<close>

theorem webdriver_error_in_cycle_counterexample:
  "main ascii_db stable_sort default_args Acquired [crashed, loaded [bitcoin_row] False] empty_world
     = (StillRunning,
        \<lparr>stdout = [BrowserReady, ScrapeError WebDriverException, Waiting 10,
                   Snapshot [bitcoin], GainersView 5 [bitcoin], LosersView 5 [bitcoin], Waiting 10],
         files = [ascii ''crypto_prices.csv'' \<mapsto>
                    [Header csv_columns, DataRow bitcoin (ascii ''2024-01-01T00:00:00+00:00'')]],
         screenshots = [], launched = 1, quit_calls = 0\<rparr>)"
proof -
  have c1: "cycle_body ascii_db stable_sort default_args crashed w
            = (None, w\<lparr>stdout := stdout w @ [ScrapeError WebDriverException]\<rparr>)" for w
    by (simp add: cycle_body_def refresh_error crashed_cycle)
  show ?thesis
    by (simp add: main_def build_driver_def c1 cycle_bitcoin sleep_def default_fields
          loaded_fields crashed_cycle save_to_csv_def empty_world_def)
qed

text \<open>
  Claim C8, amended. A \<open>WebDriverException\<close> raised while \<open>build_driver\<close> acquires the
  session keeps the loop from starting: it is printed and \<open>main\<close> returns, with no file
  changed. The session resources are still released: when the installation of the driver
  or the launch of the browser failed, no browser was launched and none is left to quit;
  and whenever \<open>main\<close> ends after the session was acquired, the one browser launched has
  been quit, exactly once. An exception raised during a polling cycle, a
  \<open>WebDriverException\<close> like any other that derives from \<open>Exception\<close>, is caught in that
  cycle: it is printed, no file changes, and unless the sleep is interrupted the loop goes
  on with the next cycle. A \<open>WebDriverException\<close> from the refresh is such an exception of
  \<open>scrape_top_n\<close>.
\<close>

theorem webdriver_error_amended:
  "(is_WebDriverException e \<and> (acq = InstallFails e \<or> acq = LaunchFails e \<or> acq = GetFails e) \<longrightarrow>
      fst (main u sv a acq cs w) = Returned
      \<and> stdout (snd (main u sv a acq cs w)) = stdout w @ [WebDriverError e]
      \<and> files (snd (main u sv a acq cs w)) = files w)
   \<and> (acq = InstallFails e \<or> acq = LaunchFails e \<longrightarrow>
        launched (snd (main u sv a acq cs w)) = launched w
        \<and> quit_calls (snd (main u sv a acq cs w)) = quit_calls w)
   \<and> (fst (main u sv a Acquired cs w) \<noteq> StillRunning \<longrightarrow>
        launched (snd (main u sv a Acquired cs w)) = launched w + 1
        \<and> quit_calls (snd (main u sv a Acquired cs w)) = quit_calls w + 1)
   \<and> (fst (scrape_top_n u (driver c) (topn a) w) = Inl e \<and> is_Exception e \<longrightarrow>
        cycle_body u sv a c w =
          (None, (snd (scrape_top_n u (driver c) (topn a) w))
                   \<lparr>stdout := stdout (snd (scrape_top_n u (driver c) (topn a) w)) @ [ScrapeError e]\<rparr>)
        \<and> files (snd (cycle_body u sv a c w)) = files w
        \<and> (0 \<le> interval a \<and> \<not> sleep_interrupted c \<longrightarrow>
             loop u sv a (c # cs) w =
               loop u sv a cs
                 ((snd (scrape_top_n u (driver c) (topn a) w))
                    \<lparr>stdout := stdout (snd (scrape_top_n u (driver c) (topn a) w))
                                 @ [ScrapeError e, Waiting (interval a)]\<rparr>)))
   \<and> (refresh_raises (driver c) = Some e \<and> e \<noteq> TimeoutException \<longrightarrow>
        scrape_top_n u (driver c) (topn a) w = (Inl e, w))"
proof (intro conjI impI; (elim conjE)?)
  assume "is_WebDriverException e" "acq = InstallFails e \<or> acq = LaunchFails e \<or> acq = GetFails e"
  then show "fst (main u sv a acq cs w) = Returned"
    "stdout (snd (main u sv a acq cs w)) = stdout w @ [WebDriverError e]"
    "files (snd (main u sv a acq cs w)) = files w"
    by (rule main_acquire_fails)+
next
  assume "acq = InstallFails e \<or> acq = LaunchFails e"
  then show "launched (snd (main u sv a acq cs w)) = launched w"
    "quit_calls (snd (main u sv a acq cs w)) = quit_calls w"
    by (rule main_nothing_launched)+
next
  assume "fst (main u sv a Acquired cs w) \<noteq> StillRunning"
  then show "launched (snd (main u sv a Acquired cs w)) = launched w + 1"
    "quit_calls (snd (main u sv a Acquired cs w)) = quit_calls w + 1"
    by (rule main_released)+
next
  assume s: "fst (scrape_top_n u (driver c) (topn a) w) = Inl e" "is_Exception e"
  then show b: "cycle_body u sv a c w =
          (None, (snd (scrape_top_n u (driver c) (topn a) w))
                   \<lparr>stdout := stdout (snd (scrape_top_n u (driver c) (topn a) w)) @ [ScrapeError e]\<rparr>)"
    by (rule cycle_contains)
  from s show "files (snd (cycle_body u sv a c w)) = files w" by (rule cycle_files_on_error)
  assume "0 \<le> interval a" "\<not> sleep_interrupted c"
  with loop_step [OF b]
  show "loop u sv a (c # cs) w =
               loop u sv a cs
                 ((snd (scrape_top_n u (driver c) (topn a) w))
                    \<lparr>stdout := stdout (snd (scrape_top_n u (driver c) (topn a) w))
                                 @ [ScrapeError e, Waiting (interval a)]\<rparr>)"
    by simp
next
  assume "refresh_raises (driver c) = Some e" "e \<noteq> TimeoutException"
  then show "scrape_top_n u (driver c) (topn a) w = (Inl e, w)" by (rule refresh_error)
qed

text \<open>
  The theorem at two inputs: the launch of the browser fails, with a cycle in which the
  refresh raises; and a session that is acquired and ends by an interrupt in the sleep of
  its first cycle.
\<close>

theorem webdriver_error_amended_witness:
  "is_WebDriverException WebDriverException
   \<and> fst (main ascii_db stable_sort default_args (LaunchFails WebDriverException) [] empty_world)
       = Returned
   \<and> launched (snd (main ascii_db stable_sort default_args (LaunchFails WebDriverException) []
                      empty_world)) = 0
   \<and> quit_calls (snd (main ascii_db stable_sort default_args (LaunchFails WebDriverException) []
                        empty_world)) = 0
   \<and> fst (main ascii_db stable_sort default_args Acquired [loaded [bitcoin_row] True] empty_world)
       \<noteq> StillRunning
   \<and> launched (snd (main ascii_db stable_sort default_args Acquired [loaded [bitcoin_row] True]
                      empty_world)) = 1
   \<and> quit_calls (snd (main ascii_db stable_sort default_args Acquired [loaded [bitcoin_row] True]
                        empty_world)) = 1
   \<and> fst (scrape_top_n ascii_db (driver crashed) (topn default_args) empty_world) = Inl WebDriverException
   \<and> is_Exception WebDriverException
   \<and> (0 \<le> interval default_args \<and> \<not> sleep_interrupted crashed)
   \<and> (refresh_raises (driver crashed) = Some WebDriverException \<and> WebDriverException \<noteq> TimeoutException)
   \<and> loop ascii_db stable_sort default_args [crashed] empty_world
       = (Running, empty_world\<lparr>stdout := [ScrapeError WebDriverException, Waiting 10]\<rparr>)"
proof -
  have s: "scrape_top_n ascii_db (driver crashed) (topn default_args) empty_world
            = (Inl WebDriverException, empty_world)"
    by (simp add: refresh_error crashed_cycle)
  then have s1: "fst (scrape_top_n ascii_db (driver crashed) (topn default_args) empty_world)
            = Inl WebDriverException"
    by simp
  have e: "is_WebDriverException WebDriverException" "is_Exception WebDriverException" by simp_all
  have h: "0 \<le> interval default_args \<and> \<not> sleep_interrupted crashed"
    by (simp add: default_args_def crashed_cycle)
  have z: "launched empty_world = 0" "quit_calls empty_world = 0" by (simp_all add: empty_world_def)
  note t = webdriver_error_amended [of WebDriverException "LaunchFails WebDriverException"
      ascii_db stable_sort default_args "[]" empty_world crashed]
  from t e have m: "fst (main ascii_db stable_sort default_args (LaunchFails WebDriverException) [] empty_world)
       = Returned" by blast
  from t have n: "launched (snd (main ascii_db stable_sort default_args (LaunchFails WebDriverException) []
                      empty_world)) = launched empty_world"
    "quit_calls (snd (main ascii_db stable_sort default_args (LaunchFails WebDriverException) []
                        empty_world)) = quit_calls empty_world"
    by blast+
  from t s1 e h have l: "loop ascii_db stable_sort default_args [crashed] empty_world =
      loop ascii_db stable_sort default_args []
        ((snd (scrape_top_n ascii_db (driver crashed) (topn default_args) empty_world))
           \<lparr>stdout := stdout (snd (scrape_top_n ascii_db (driver crashed) (topn default_args) empty_world))
               @ [ScrapeError WebDriverException, Waiting (interval default_args)]\<rparr>)"
    by blast
  have r: "loop ascii_db stable_sort default_args [crashed] empty_world
       = (Running, empty_world\<lparr>stdout := [ScrapeError WebDriverException, Waiting 10]\<rparr>)"
    unfolding l s by (simp add: default_args_def empty_world_def)
  have f: "fst (main ascii_db stable_sort default_args Acquired [loaded [bitcoin_row] True] empty_world)
       \<noteq> StillRunning"
    by (simp add: main_def build_driver_def cycle_bitcoin sleep_def default_fields loaded_fields)
  note t2 = webdriver_error_amended [of WebDriverException "LaunchFails WebDriverException"
      ascii_db stable_sort default_args "[loaded [bitcoin_row] True]" empty_world crashed]
  from t2 f have q: "launched (snd (main ascii_db stable_sort default_args Acquired [loaded [bitcoin_row] True]
                      empty_world)) = launched empty_world + 1"
    "quit_calls (snd (main ascii_db stable_sort default_args Acquired [loaded [bitcoin_row] True]
                        empty_world)) = quit_calls empty_world + 1"
    by blast+
  from m n q r s1 e h f show ?thesis by (simp add: crashed_cycle z)
qed


lemma main_interrupted:
  assumes "loop u sv a pre (w\<lparr>launched := Suc (launched w), stdout := stdout w @ [BrowserReady]\<rparr>)
             = (Running, w2)"
    and "cycle_body u sv a c w2 = (None, w3)" and "0 \<le> interval a" and "sleep_interrupted c"
  shows "main u sv a Acquired (pre @ c # rest) w =
           (Returned, quit (w3\<lparr>stdout := stdout w3 @ [Waiting (interval a), Stopped]\<rparr>))"
proof -
  have "loop u sv a (pre @ c # rest)
          (w\<lparr>launched := Suc (launched w), stdout := stdout w @ [BrowserReady]\<rparr>)
        = (Broke, w3\<lparr>stdout := stdout w3 @ [Waiting (interval a), Stopped]\<rparr>)"
    using loop_append [OF assms(1)] loop_interrupt [OF assms(2,3,4)] by simp
  then show ?thesis by (simp add: main_def build_driver_def)
qed

text \<open>
  An interrupt during the sleep. When the cycles before have left the loop running and a
  cycle's body has ended without an uncaught exception, a \<open>KeyboardInterrupt\<close> during the
  sleep of that cycle ends the loop: \<open>main\<close> prints that it was stopped, quits the driver
  and returns, whatever cycles would have followed; it prints no error, and \<open>quit\<close> is
  called exactly once.
\<close>

lemma interrupt_during_sleep:
  assumes "loop u sv a pre (w\<lparr>launched := Suc (launched w), stdout := stdout w @ [BrowserReady]\<rparr>)
             = (Running, w2)"
    and "cycle_body u sv a c w2 = (None, w3)" and "0 \<le> interval a" and "sleep_interrupted c"
  shows "main u sv a Acquired (pre @ c # rest) w =
           (Returned, quit (w3\<lparr>stdout := stdout w3 @ [Waiting (interval a), Stopped]\<rparr>))
       \<and> stdout (snd (main u sv a Acquired (pre @ c # rest) w)) =
           stdout w3 @ [Waiting (interval a), Stopped, BrowserClosed]
       \<and> launched (snd (main u sv a Acquired (pre @ c # rest) w)) = launched w + 1
       \<and> quit_calls (snd (main u sv a Acquired (pre @ c # rest) w)) = quit_calls w + 1"
proof (intro conjI)
  show m: "main u sv a Acquired (pre @ c # rest) w =
           (Returned, quit (w3\<lparr>stdout := stdout w3 @ [Waiting (interval a), Stopped]\<rparr>))"
    using assms by (rule main_interrupted)
  show "stdout (snd (main u sv a Acquired (pre @ c # rest) w)) =
           stdout w3 @ [Waiting (interval a), Stopped, BrowserClosed]"
    by (simp add: m quit_def)
  have n: "fst (main u sv a Acquired (pre @ c # rest) w) \<noteq> StillRunning" by (simp add: m)
  from n show "launched (snd (main u sv a Acquired (pre @ c # rest) w)) = launched w + 1"
    by (rule main_released)
  from n show "quit_calls (snd (main u sv a Acquired (pre @ c # rest) w)) = quit_calls w + 1"
    by (rule main_released)
qed

text \<open>
  Claim C9 does not hold of the code. On the path the claim starts from it does: a cycle
  that times out, then a cycle that scrapes one row and is interrupted in its sleep, and
  \<open>main\<close> returns with no error printed, the cycle after it never run, one browser launched
  and \<open>quit\<close> called once. But on the path where the acquisition of the session fails in
  \<open>driver.get\<close>, \<open>build_driver\<close> has launched the browser and the exception leaves it before
  \<open>main\<close> binds the handle: the \<open>finally\<close> block finds \<open>None\<close> and skips \<open>driver.quit()\<close>, and
  \<open>main\<close> returns, or the process ends with the exception, with one browser launched and
  no call of \<open>quit\<close>.
\<close>

theorem browser_not_released_when_get_fails:
  "main ascii_db stable_sort default_args (GetFails WebDriverException) [] empty_world
     = (Returned,
        \<lparr>stdout = [WebDriverError WebDriverException], files = Map.empty, screenshots = [],
         launched = 1, quit_calls = 0\<rparr>)
   \<and> main ascii_db stable_sort default_args (GetFails TimeoutException) [] empty_world
     = (Returned,
        \<lparr>stdout = [WebDriverError TimeoutException], files = Map.empty, screenshots = [],
         launched = 1, quit_calls = 0\<rparr>)
   \<and> main ascii_db stable_sort default_args (GetFails OSError) [] empty_world
     = (Uncaught OSError,
        \<lparr>stdout = [], files = Map.empty, screenshots = [], launched = 1, quit_calls = 0\<rparr>)
   \<and> main ascii_db stable_sort default_args Acquired
        ([timed_out] @ loaded [bitcoin_row] True # [crashed]) empty_world
      = (Returned,
         \<lparr>stdout = [BrowserReady, TimeoutNotice, NoData, Waiting 10, Snapshot [bitcoin],
                    GainersView 5 [bitcoin], LosersView 5 [bitcoin], Waiting 10, Stopped,
                    BrowserClosed],
          files = [ascii ''crypto_prices.csv'' \<mapsto>
                     [Header csv_columns, DataRow bitcoin (ascii ''2024-01-01T00:00:00+00:00'')]],
          screenshots = [ascii ''debug_timeout.png''], launched = 1, quit_calls = 1\<rparr>)"
proof (intro conjI)
  show "main ascii_db stable_sort default_args (GetFails WebDriverException) [] empty_world
     = (Returned,
        \<lparr>stdout = [WebDriverError WebDriverException], files = Map.empty, screenshots = [],
         launched = 1, quit_calls = 0\<rparr>)"
    by (simp add: main_def build_driver_def empty_world_def)
  show "main ascii_db stable_sort default_args (GetFails TimeoutException) [] empty_world
     = (Returned,
        \<lparr>stdout = [WebDriverError TimeoutException], files = Map.empty, screenshots = [],
         launched = 1, quit_calls = 0\<rparr>)"
    by (simp add: main_def build_driver_def empty_world_def)
  show "main ascii_db stable_sort default_args (GetFails OSError) [] empty_world
     = (Uncaught OSError,
        \<lparr>stdout = [], files = Map.empty, screenshots = [], launched = 1, quit_calls = 0\<rparr>)"
    by (simp add: main_def build_driver_def empty_world_def)
  have l: "loop ascii_db stable_sort default_args [timed_out]
     (empty_world\<lparr>launched := Suc (launched empty_world), stdout := stdout empty_world @ [BrowserReady]\<rparr>)
     = (Running, \<lparr>stdout = [BrowserReady, TimeoutNotice, NoData, Waiting 10], files = Map.empty,
                  screenshots = [ascii ''debug_timeout.png''], launched = 1, quit_calls = 0\<rparr>)"
    by (simp add: cycle_timeout not_ready timed_out_not_ready sleep_def default_fields
          empty_world_def)
  have i: "0 \<le> interval default_args" by (simp add: default_fields)
  have s: "sleep_interrupted (loaded [bitcoin_row] True)" by (simp add: loaded_fields)
  from interrupt_during_sleep [OF l cycle_bitcoin i s, of "[crashed]"]
  show "main ascii_db stable_sort default_args Acquired
        ([timed_out] @ loaded [bitcoin_row] True # [crashed]) empty_world
      = (Returned,
         \<lparr>stdout = [BrowserReady, TimeoutNotice, NoData, Waiting 10, Snapshot [bitcoin],
                    GainersView 5 [bitcoin], LosersView 5 [bitcoin], Waiting 10, Stopped,
                    BrowserClosed],
          files = [ascii ''crypto_prices.csv'' \<mapsto>
                     [Header csv_columns, DataRow bitcoin (ascii ''2024-01-01T00:00:00+00:00'')]],
          screenshots = [ascii ''debug_timeout.png''], launched = 1, quit_calls = 1\<rparr>)"
    by (simp add: quit_def save_to_csv_def default_fields)
qed

section \<open>The price view\<close>

text \<open>
  Claim C10 does not hold of the code: the condition \<open>args.min_price or args.max_price\<close>
  takes a bound of 0.0 for no bound. With \<open>--min-price 0\<close> alone the cycle prints no price
  view, although \<open>filter_by_price\<close> itself, which tests \<open>is not None\<close>, applies the bound;
  with a minimum of 1 the view is printed.
\<close>

theorem zero_bound_skips_price_view:
  "price_view (default_args\<lparr>min_price := Some (nearest_double 0 1)\<rparr>) [bitcoin] = []
   \<and> filter_by_price [bitcoin] (Some (nearest_double 0 1)) None = [bitcoin]
   \<and> price_view (default_args\<lparr>min_price := Some (nearest_double 1 1)\<rparr>) [bitcoin]
       = [PriceFilterView [bitcoin]]"
  by (simp add: price_view_def default_fields filter_by_price_def price_ge_def bitcoin_def
        example_doubles float_eval)

end
